theory Spec2Isabelle
  imports Complex_Main
begin

section \<open>nano-retry: retry with exponential backoff\<close>

text \<open>
  A shallow embedding of the library's \<^verbatim>\<open>retry.ts\<close>: \<^verbatim>\<open>calculateDelay\<close>,
  \<^verbatim>\<open>sleep\<close>, \<^verbatim>\<open>withTimeout\<close>, \<^verbatim>\<open>retry\<close> and \<^verbatim>\<open>retryable\<close>.

  Conventions of the embedding.
  \<^item> A JavaScript \<^verbatim>\<open>number\<close> is an IEEE 754 double: type \<open>number\<close> below. The
    options, the clock readings and the draws of \<^verbatim>\<open>Math.random()\<close> are finite numbers
    and are given by their value, a \<^typ>\<open>real\<close>. The arithmetic of
    \<^verbatim>\<open>calculateDelay\<close> rounds every result to a double. The subtractions of
    \<^verbatim>\<open>retry\<close> (the elapsed time, the retries left, the time remaining) are exact. The
    loop counter \<^verbatim>\<open>attempt\<close> runs over positive integers and is a \<^typ>\<open>nat\<close>.
  \<^item> Everything outside the library (the clock, the random generator, the power
    function, the timers, the caller's operation and callbacks, the abort signal) acts on
    a world \<open>'w\<close> that is passed along explicitly. The world changes where the source
    awaits or draws a random number, and between the two reads of the clock that open
    \<^verbatim>\<open>retry\<close>: \<^verbatim>\<open>startTime\<close> and the first \<^verbatim>\<open>elapsed\<close>.
  \<^item> A promise is its final state: fulfilled, rejected, or never settled
    (\<open>Pending\<close>). A \<^verbatim>\<open>throw\<close> inside an \<^verbatim>\<open>async\<close> function is a rejection.
  \<^item> A timer that has been armed is followed by wake-ups, delivered by the event loop in
    some order: the timer firing, the abort event. They are a timeline: the list of
    deliveries, in order, each with the world at that moment. The first delivery that has
    a registered callback settles the promise; later ones find \<^verbatim>\<open>settled\<close> set (or
    their callback removed) and do nothing. The settlement of the caller's operation
    competes with them in \<^verbatim>\<open>withTimeout\<close>: the clock tells which comes first.
  \<^item> Every function returns, next to its result, the list of calls it made to caller
    code and to \<^verbatim>\<open>sleep\<close>, so that invocations can be counted.
\<close>

subsection \<open>Errors\<close>

text \<open>
  The messages of \<^verbatim>\<open>TimeoutError\<close>. The three the library builds carry the number
  that the template string interpolates.
\<close>

datatype timeout_message =
    AttemptTimedOut real
  | TotalTimeoutExceeded real
  | TotalTimeoutWouldBeExceeded real
  | TimeoutMessage string

text \<open>
  A thrown value: an instance of one of the two exported classes, a \<^verbatim>\<open>TypeError\<close>,
  \<^verbatim>\<open>undefined\<close>, or any other value \<open>'e\<close> of the caller's.
\<close>

datatype 'e thrown =
    AbortError string
  | TimeoutError timeout_message
  | TypeError string
  | Undefined
  | Thrown 'e

definition new_AbortError :: "'e thrown" where
  "new_AbortError = AbortError ''Retry operation was aborted''"

fun instanceof_AbortError :: "'e thrown \<Rightarrow> bool" where
  "instanceof_AbortError (AbortError m) = True"
| "instanceof_AbortError e = False"

text \<open>
  The two errors that the loop throws for the total timeout, before an attempt and before
  a sleep.
\<close>

fun is_TotalTimeout :: "'e thrown \<Rightarrow> bool" where
  "is_TotalTimeout (TimeoutError (TotalTimeoutExceeded t)) = True"
| "is_TotalTimeout (TimeoutError (TotalTimeoutWouldBeExceeded t)) = True"
| "is_TotalTimeout e = False"

subsection \<open>Numbers\<close>

text \<open>
  A double is a finite value, an infinity, or \<^verbatim>\<open>NaN\<close>. The two zeros are not told
  apart: no code below divides, or looks at the sign of a zero.
\<close>

datatype number = Finite real | PosInfinity | NegInfinity | NaN

text \<open>The exponent \<open>e\<close> of a positive real: \<open>2 ^ e \<le> a < 2 ^ (e + 1)\<close>.\<close>

function binade :: "real \<Rightarrow> int" where
  "binade a = (if 2 \<le> a then binade (a / 2) + 1
               else if 0 < a \<and> a < 1 then binade (a * 2) - 1
               else 0)"
  by auto
termination
proof (relation "measure (\<lambda>a. nat \<bar>\<lfloor>log 2 a\<rfloor>\<bar>)", goal_cases)
  case 1
  show ?case by simp
next
  case (2 a)
  then have "log 2 (a / 2) = log 2 a - 1" by (simp add: log_divide)
  moreover have "1 \<le> log 2 a" using 2 by (simp add: le_log_iff)
  ultimately show ?case by simp
next
  case (3 a)
  then have "log 2 (a * 2) = log 2 a + 1" by (simp add: log_mult)
  moreover have "\<lfloor>log 2 a\<rfloor> < 0" using 3 by (simp add: floor_less_zero)
  ultimately show ?case by (simp del: floor_less_zero)
qed

declare binade.simps [simp del]

definition pow2 :: "int \<Rightarrow> real" where
  "pow2 k = (if 0 \<le> k then 2 ^ nat k else 1 / 2 ^ nat (- k))"

text \<open>Rounding to the nearest integer, a tie going to the even one.\<close>

definition round_even :: "real \<Rightarrow> int" where
  "round_even q =
     (let f = \<lfloor>q\<rfloor>; d = q - of_int f
      in if d < 1/2 then f else if 1/2 < d then f + 1 else if even f then f else f + 1)"

text \<open>
  The double nearest to a real (round to nearest, ties to even): 53 significant bits,
  the smallest exponent -1022 (below it the spacing stays \<open>2 ^ -1074\<close>), and an
  infinity when the rounded magnitude reaches \<open>2 ^ 1024\<close>.
\<close>

definition to_double :: "real \<Rightarrow> number" where
  "to_double x =
     (if x = 0 then Finite 0
      else (let a = \<bar>x\<bar>;
                u = pow2 (max (binade a) (- 1022) - 52);
                y = of_int (round_even (a / u)) * u
            in if 2 ^ 1024 \<le> y then (if 0 < x then PosInfinity else NegInfinity)
               else Finite (if 0 < x then y else - y)))"

text \<open>The operators \<^verbatim>\<open>*\<close>, \<^verbatim>\<open>+\<close>, \<^verbatim>\<open>-\<close> and \<^verbatim>\<open><\<close>, and \<^verbatim>\<open>Math.min\<close>, \<^verbatim>\<open>Math.round\<close>.\<close>

fun fsign :: "number \<Rightarrow> real" where
  "fsign (Finite a) = sgn a"
| "fsign PosInfinity = 1"
| "fsign NegInfinity = - 1"
| "fsign NaN = 0"

fun fmul :: "number \<Rightarrow> number \<Rightarrow> number" where
  "fmul (Finite a) (Finite b) = to_double (a * b)"
| "fmul NaN y = NaN"
| "fmul x NaN = NaN"
| "fmul x y = (if fsign x * fsign y = 0 then NaN
               else if 0 < fsign x * fsign y then PosInfinity else NegInfinity)"

fun fadd :: "number \<Rightarrow> number \<Rightarrow> number" where
  "fadd (Finite a) (Finite b) = to_double (a + b)"
| "fadd NaN y = NaN"
| "fadd x NaN = NaN"
| "fadd PosInfinity NegInfinity = NaN"
| "fadd NegInfinity PosInfinity = NaN"
| "fadd PosInfinity y = PosInfinity"
| "fadd x PosInfinity = PosInfinity"
| "fadd NegInfinity y = NegInfinity"
| "fadd x NegInfinity = NegInfinity"

fun fsub :: "number \<Rightarrow> number \<Rightarrow> number" where
  "fsub (Finite a) (Finite b) = to_double (a - b)"
| "fsub NaN y = NaN"
| "fsub x NaN = NaN"
| "fsub PosInfinity PosInfinity = NaN"
| "fsub NegInfinity NegInfinity = NaN"
| "fsub PosInfinity y = PosInfinity"
| "fsub x NegInfinity = PosInfinity"
| "fsub NegInfinity y = NegInfinity"
| "fsub x PosInfinity = NegInfinity"

fun less_than :: "number \<Rightarrow> number \<Rightarrow> bool" where
  "less_than (Finite a) (Finite b) = (a < b)"
| "less_than NaN y = False"
| "less_than x NaN = False"
| "less_than PosInfinity y = False"
| "less_than x NegInfinity = False"
| "less_than x PosInfinity = True"
| "less_than NegInfinity y = True"

fun Math_min :: "number \<Rightarrow> number \<Rightarrow> number" where
  "Math_min (Finite a) (Finite b) = Finite (min a b)"
| "Math_min NaN y = NaN"
| "Math_min x NaN = NaN"
| "Math_min NegInfinity y = NegInfinity"
| "Math_min x NegInfinity = NegInfinity"
| "Math_min PosInfinity y = y"
| "Math_min x PosInfinity = x"

text \<open>
  \<^verbatim>\<open>Math.round\<close> gives the nearest integer, a half going up, as \<^const>\<open>round\<close>
  does; the result is a double whenever the argument is.
\<close>

fun Math_round :: "number \<Rightarrow> number" where
  "Math_round (Finite a) = Finite (of_int (round a))"
| "Math_round x = x"

subsection \<open>Promises, events and the runtime\<close>

datatype ('x, 'e) promise = Fulfilled 'x | Rejected "'e thrown" | Pending

datatype wakeup = TimerFires | AbortFires

text \<open>
  The caller's operation \<^verbatim>\<open>fn(attempt)\<close>, called in a world: \<open>None\<close> when its promise
  never settles; otherwise how it settles, and the world at that moment. \<open>Inr v\<close> is
  its promise fulfilling with \<open>v\<close> (or the synchronous return of \<open>v\<close>), \<open>Inl e\<close> its
  rejection (or a synchronous throw).
\<close>

type_synonym ('w, 'a, 'e) settlement = "(('e thrown + 'a) \<times> 'w) option"

type_synonym ('w, 'a, 'e) operation = "nat \<Rightarrow> 'w \<Rightarrow> ('w, 'a, 'e) settlement"

record 'w AbortSignal =
  aborted :: "'w \<Rightarrow> bool"

text \<open>
  The runtime. \<open>tick\<close> is the world a moment later, when synchronous code reads the
  clock again. \<^verbatim>\<open>Math.pow\<close> is as exact as the platform makes it.
  \<open>setTimeout ms w\<close> is the timeline of the wake-ups that follow the arming of a timer
  of \<open>ms\<close> milliseconds in the world \<open>w\<close>. \<open>settles_first ws wk\<close> is the order in which
  the event loop runs the reaction to a settlement, in the world \<open>ws\<close>, and the callback
  of a wake-up, in the world \<open>wk\<close>, when the clock reads the same in both.
\<close>

record 'w runtime =
  Date_now :: "'w \<Rightarrow> real"
  tick :: "'w \<Rightarrow> 'w"
  Math_random :: "'w \<Rightarrow> real \<times> 'w"
  Math_pow :: "real \<Rightarrow> real \<Rightarrow> number"
  setTimeout :: "number \<Rightarrow> 'w \<Rightarrow> (wakeup \<times> 'w) list"
  settles_first :: "'w \<Rightarrow> 'w \<Rightarrow> bool"

text \<open>\<^verbatim>\<open>signal?.aborted\<close>\<close>

definition signal_aborted :: "'w AbortSignal option \<Rightarrow> 'w \<Rightarrow> bool" where
  "signal_aborted signal w = (case signal of None \<Rightarrow> False | Some s \<Rightarrow> aborted s w)"

subsection \<open>Options and context\<close>

record RetryContext =
  attempt :: nat
  retriesLeft :: real
  elapsed :: real
  nextDelay :: number

text \<open>
  An awaited callback: \<open>None\<close> when it never settles, otherwise what it throws or
  returns, and the world then.
\<close>

type_synonym ('w, 'r, 'e) callback =
  "'e thrown \<Rightarrow> RetryContext \<Rightarrow> 'w \<Rightarrow> (('e thrown + 'r) \<times> 'w) option"

record ('w, 'e) RetryOptions =
  retries :: "real option"
  minTimeout :: "real option"
  maxTimeout :: "real option"
  factor :: "real option"
  jitter :: "bool option"
  attemptTimeout :: "real option"
  totalTimeout :: "real option"
  signal :: "'w AbortSignal option"
  retryIf :: "('w, bool, 'e) callback option"
  onRetry :: "('w, unit, 'e) callback option"

text \<open>The destructuring of \<^verbatim>\<open>options\<close> with \<^verbatim>\<open>DEFAULTS\<close>.\<close>

definition the_retries :: "('w, 'e) RetryOptions \<Rightarrow> real" where
  "the_retries options = (case retries options of None \<Rightarrow> 3 | Some v \<Rightarrow> v)"

definition the_minTimeout :: "('w, 'e) RetryOptions \<Rightarrow> real" where
  "the_minTimeout options = (case minTimeout options of None \<Rightarrow> 1000 | Some v \<Rightarrow> v)"

definition the_maxTimeout :: "('w, 'e) RetryOptions \<Rightarrow> real" where
  "the_maxTimeout options = (case maxTimeout options of None \<Rightarrow> 30000 | Some v \<Rightarrow> v)"

definition the_factor :: "('w, 'e) RetryOptions \<Rightarrow> real" where
  "the_factor options = (case factor options of None \<Rightarrow> 2 | Some v \<Rightarrow> v)"

definition the_jitter :: "('w, 'e) RetryOptions \<Rightarrow> bool" where
  "the_jitter options = (case jitter options of None \<Rightarrow> True | Some v \<Rightarrow> v)"

subsection \<open>The calls a run makes\<close>

datatype 'e call =
    Invoked nat
  | Failed nat "'e thrown"
  | RetryIfCalled "'e thrown" RetryContext
  | OnRetryCalled "'e thrown" RetryContext
  | Slept number

text \<open>
  \<open>Invoked n\<close>: \<^verbatim>\<open>fn(n)\<close> was called. \<open>Failed n e\<close>: the \<^verbatim>\<open>catch\<close> block of
  attempt \<open>n\<close> was entered with \<open>e\<close>. The others: the callback, or \<^verbatim>\<open>sleep\<close>, was
  called with these arguments.
\<close>

fun is_Invoked :: "'e call \<Rightarrow> bool" where
  "is_Invoked (Invoked n) = True"
| "is_Invoked c = False"

fun is_Failed :: "'e call \<Rightarrow> bool" where
  "is_Failed (Failed n e) = True"
| "is_Failed c = False"

fun is_OnRetryCalled :: "'e call \<Rightarrow> bool" where
  "is_OnRetryCalled (OnRetryCalled e c) = True"
| "is_OnRetryCalled c = False"

definition invocations :: "'e call list \<Rightarrow> nat" where
  "invocations tr = length (filter is_Invoked tr)"

definition failedAttempts :: "'e call list \<Rightarrow> nat" where
  "failedAttempts tr = length (filter is_Failed tr)"

definition onRetryCalls :: "'e call list \<Rightarrow> nat" where
  "onRetryCalls tr = length (filter is_OnRetryCalled tr)"

subsection \<open>calculateDelay\<close>

text \<open>
  Every product, sum and difference is rounded to a double; \<^verbatim>\<open>attempt - 1\<close> is
  exact. \<^verbatim>\<open>Math.random()\<close> is called only under \<^verbatim>\<open>jitter\<close>.
\<close>

definition calculateDelay ::
  "'w runtime \<Rightarrow> int \<Rightarrow> real \<Rightarrow> real \<Rightarrow> real \<Rightarrow> bool \<Rightarrow> 'w \<Rightarrow> number \<times> 'w" where
  "calculateDelay rt att minT maxT fac jit w =
     (let delay = fmul (Finite minT) (Math_pow rt fac (of_int (att - 1)));
          delay = Math_min delay (Finite maxT)
      in if jit then
           (let jitterRange = fmul delay (Finite 0.25);
                (r, w') = Math_random rt w;
                delay = fadd (fsub delay jitterRange)
                             (fmul (fmul (Finite r) jitterRange) (Finite 2))
            in (Math_round delay, w'))
         else (Math_round delay, w))"

subsection \<open>sleep\<close>

text \<open>
  The timer's callback is always registered, the abort listener only when there is a
  signal.
\<close>

fun listening :: "bool \<Rightarrow> wakeup \<Rightarrow> bool" where
  "listening has_signal TimerFires = True"
| "listening has_signal AbortFires = has_signal"

definition sleep ::
  "'w runtime \<Rightarrow> number \<Rightarrow> 'w AbortSignal option \<Rightarrow> 'w \<Rightarrow> (unit, 'e) promise \<times> 'w" where
  "sleep rt ms sig w =
     (if signal_aborted sig w then (Rejected new_AbortError, w)
      else (case List.find (\<lambda>(k, w'). listening (sig \<noteq> None) k) (setTimeout rt ms w) of
              None \<Rightarrow> (Pending, w)
            | Some (TimerFires, w') \<Rightarrow> (Fulfilled (), w')
            | Some (AbortFires, w') \<Rightarrow> (Rejected new_AbortError, w')))"

subsection \<open>withTimeout\<close>

text \<open>What the promise becomes when the operation settles, and when a wake-up comes.\<close>

fun settled :: "'e thrown + 'a \<Rightarrow> ('a, 'e) promise" where
  "settled (Inr result) = Fulfilled result"
| "settled (Inl error) = Rejected error"

fun woken :: "real \<Rightarrow> wakeup \<Rightarrow> ('a, 'e) promise" where
  "woken timeoutMs TimerFires = Rejected (TimeoutError (AttemptTimedOut timeoutMs))"
| "woken timeoutMs AbortFires = Rejected new_AbortError"

text \<open>
  The timer of \<open>timeoutMs\<close> is armed, the abort listener registered, and \<^verbatim>\<open>fn()\<close>
  called. Of the operation's settlement and the first wake-up that has a callback, the
  one at which the clock reads less comes first and settles the promise; when the clock
  reads the same at both, the order is that of the event loop. The boolean of the result
  tells whether \<^verbatim>\<open>fn()\<close> was called: it is not when the signal is aborted on entry.
\<close>

definition withTimeout ::
  "'w runtime \<Rightarrow> ('w \<Rightarrow> ('w, 'a, 'e) settlement) \<Rightarrow> real \<Rightarrow> 'w AbortSignal option \<Rightarrow> 'w
     \<Rightarrow> ('a, 'e) promise \<times> bool \<times> 'w" where
  "withTimeout rt fn timeoutMs sig w =
     (if signal_aborted sig w then (Rejected new_AbortError, False, w)
      else (case (List.find (\<lambda>(k, w'). listening (sig \<noteq> None) k)
                    (setTimeout rt (Finite timeoutMs) w), fn w) of
              (None, None) \<Rightarrow> (Pending, True, w)
            | (None, Some (r, ws)) \<Rightarrow> (settled r, True, ws)
            | (Some (k, wk), None) \<Rightarrow> (woken timeoutMs k, True, wk)
            | (Some (k, wk), Some (r, ws)) \<Rightarrow>
                (if Date_now rt ws < Date_now rt wk \<or>
                    Date_now rt ws = Date_now rt wk \<and> settles_first rt ws wk
                 then (settled r, True, ws)
                 else (woken timeoutMs k, True, wk))))"

text \<open>
  \<^verbatim>\<open>await fn(attempt)\<close> with no timeout: only the operation's own settlement
  resumes the loop.
\<close>

definition await_fn ::
  "('w \<Rightarrow> ('w, 'a, 'e) settlement) \<Rightarrow> 'w \<Rightarrow> ('a, 'e) promise \<times> bool \<times> 'w" where
  "await_fn fn w =
     (case fn w of
        None \<Rightarrow> (Pending, True, w)
      | Some (r, ws) \<Rightarrow> (settled r, True, ws))"

subsection \<open>retry\<close>

definition Number_isInteger :: "real \<Rightarrow> bool" where
  "Number_isInteger x = (of_int \<lfloor>x\<rfloor> = x)"

text \<open>The validation of the options: the message of the \<^verbatim>\<open>TypeError\<close>, if any.\<close>

definition validate :: "('w, 'e) RetryOptions \<Rightarrow> string option" where
  "validate options =
     (if the_retries options < 0 \<or> \<not> Number_isInteger (the_retries options)
        then Some ''retries must be a non-negative integer''
      else if the_minTimeout options \<le> 0 then Some ''minTimeout must be positive''
      else if the_maxTimeout options \<le> 0 then Some ''maxTimeout must be positive''
      else if the_factor options \<le> 0 then Some ''factor must be positive''
      else if (case attemptTimeout options of None \<Rightarrow> False | Some t \<Rightarrow> t \<le> 0)
        then Some ''attemptTimeout must be positive''
      else if (case totalTimeout options of None \<Rightarrow> False | Some t \<Rightarrow> t \<le> 0)
        then Some ''totalTimeout must be positive''
      else None)"

text \<open>
  The head of the loop body: the total timeout is checked, then the signal. The result
  is the error thrown there, if any.
\<close>

definition before_attempt ::
  "'w runtime \<Rightarrow> ('w, 'e) RetryOptions \<Rightarrow> real \<Rightarrow> 'w \<Rightarrow> 'e thrown option" where
  "before_attempt rt options startTime w =
     (let el = Date_now rt w - startTime in
      if (case totalTimeout options of None \<Rightarrow> False | Some t \<Rightarrow> el \<ge> t)
        then Some (TimeoutError (TotalTimeoutExceeded (the (totalTimeout options))))
      else if signal_aborted (signal options) w then Some new_AbortError
      else None)"

text \<open>The \<^verbatim>\<open>try\<close> block: the operation, under \<^verbatim>\<open>withTimeout\<close> when configured.\<close>

definition run_attempt ::
  "'w runtime \<Rightarrow> ('w, 'a, 'e) operation \<Rightarrow> ('w, 'e) RetryOptions \<Rightarrow> nat \<Rightarrow> 'w
     \<Rightarrow> ('a, 'e) promise \<times> 'e call list \<times> 'w" where
  "run_attempt rt fn options att w =
     (case (case attemptTimeout options of
              Some t \<Rightarrow> withTimeout rt (fn att) t (signal options) w
            | None \<Rightarrow> await_fn (fn att) w) of
        (p, called, w') \<Rightarrow> (p, (if called then [Invoked att] else []), w'))"

text \<open>
  The two awaited callbacks. \<open>Fulfilled ()\<close> is normal completion: the code after the
  call runs.
\<close>

definition call_retryIf ::
  "('w, bool, 'e) callback option \<Rightarrow> 'e thrown \<Rightarrow> RetryContext \<Rightarrow> 'w
     \<Rightarrow> (unit, 'e) promise \<times> 'e call list \<times> 'w" where
  "call_retryIf cb error context w =
     (case cb of
        None \<Rightarrow> (Fulfilled (), [], w)
      | Some f \<Rightarrow>
          (case f error context w of
             None \<Rightarrow> (Pending, [RetryIfCalled error context], w)
           | Some (Inl e, w') \<Rightarrow> (Rejected e, [RetryIfCalled error context], w')
           | Some (Inr shouldRetry, w') \<Rightarrow>
               (if \<not> shouldRetry then (Rejected error, [RetryIfCalled error context], w')
                else (Fulfilled (), [RetryIfCalled error context], w'))))"

definition call_onRetry ::
  "('w, unit, 'e) callback option \<Rightarrow> 'e thrown \<Rightarrow> RetryContext \<Rightarrow> 'w
     \<Rightarrow> (unit, 'e) promise \<times> 'e call list \<times> 'w" where
  "call_onRetry cb error context w =
     (case cb of
        None \<Rightarrow> (Fulfilled (), [], w)
      | Some f \<Rightarrow>
          (case f error context w of
             None \<Rightarrow> (Pending, [OnRetryCalled error context], w)
           | Some (Inl e, w') \<Rightarrow> (Rejected e, [OnRetryCalled error context], w')
           | Some (Inr u, w') \<Rightarrow> (Fulfilled (), [OnRetryCalled error context], w')))"

text \<open>
  The \<^verbatim>\<open>catch\<close> block up to the call of \<^verbatim>\<open>onRetry\<close>. \<open>Fulfilled d\<close>: a retry is
  scheduled after the delay \<open>d\<close>.
\<close>

definition on_error ::
  "'w runtime \<Rightarrow> ('w, 'e) RetryOptions \<Rightarrow> real \<Rightarrow> nat \<Rightarrow> 'e thrown \<Rightarrow> 'w
     \<Rightarrow> (number, 'e) promise \<times> 'e call list \<times> 'w" where
  "on_error rt options startTime att error w =
     (if instanceof_AbortError error then (Rejected error, [], w)
      else
        (let left = the_retries options + 1 - real att;
             isLastAttempt = (left = 0)
         in if isLastAttempt then (Rejected error, [], w)
            else
              (case calculateDelay rt (int att) (the_minTimeout options)
                      (the_maxTimeout options) (the_factor options) (the_jitter options) w of
                 (nd, w1) \<Rightarrow>
                   (let context = \<lparr>attempt = att, retriesLeft = left,
                                   elapsed = Date_now rt w1 - startTime, nextDelay = nd\<rparr>
                    in case call_retryIf (retryIf options) error context w1 of
                         (Rejected e, tr1, w2) \<Rightarrow> (Rejected e, tr1, w2)
                       | (Pending, tr1, w2) \<Rightarrow> (Pending, tr1, w2)
                       | (Fulfilled u, tr1, w2) \<Rightarrow>
                           (case call_onRetry (onRetry options) error context w2 of
                              (Rejected e, tr2, w3) \<Rightarrow> (Rejected e, tr1 @ tr2, w3)
                            | (Pending, tr2, w3) \<Rightarrow> (Pending, tr1 @ tr2, w3)
                            | (Fulfilled u', tr2, w3) \<Rightarrow> (Fulfilled nd, tr1 @ tr2, w3))))))"

text \<open>
  The \<^verbatim>\<open>context\<close> object that the \<^verbatim>\<open>catch\<close> block of attempt \<open>att\<close>, entered in
  world \<open>w\<close>, passes to the callbacks.
\<close>

definition the_context ::
  "'w runtime \<Rightarrow> ('w, 'e) RetryOptions \<Rightarrow> real \<Rightarrow> nat \<Rightarrow> 'w \<Rightarrow> RetryContext" where
  "the_context rt options st att w =
     (case calculateDelay rt (int att) (the_minTimeout options) (the_maxTimeout options)
             (the_factor options) (the_jitter options) w of
        (nd, w1) \<Rightarrow> \<lparr>attempt = att, retriesLeft = the_retries options + 1 - real att,
                      elapsed = Date_now rt w1 - st, nextDelay = nd\<rparr>)"

text \<open>The end of the \<^verbatim>\<open>catch\<close> block: the second check of the total timeout, and the sleep.\<close>

definition before_next ::
  "'w runtime \<Rightarrow> ('w, 'e) RetryOptions \<Rightarrow> real \<Rightarrow> number \<Rightarrow> 'w
     \<Rightarrow> (unit, 'e) promise \<times> 'e call list \<times> 'w" where
  "before_next rt options startTime nd w =
     (if (case totalTimeout options of
            None \<Rightarrow> False
          | Some t \<Rightarrow> (let timeRemaining = t - (Date_now rt w - startTime)
                      in less_than (Finite timeRemaining) nd))
        then (Rejected (TimeoutError (TotalTimeoutWouldBeExceeded (the (totalTimeout options)))),
              [], w)
      else (case sleep rt nd (signal options) w of (p, w') \<Rightarrow> (p, [Slept nd], w')))"

text \<open>
  One pass through the loop body: it leaves \<^verbatim>\<open>retry\<close> (\<open>Done\<close>), or reaches the end
  of the body with \<^verbatim>\<open>lastError\<close> set (\<open>Next\<close>).
\<close>

datatype ('a, 'e) step = Done "('a, 'e) promise" | Next "'e thrown"

definition iteration ::
  "'w runtime \<Rightarrow> ('w, 'a, 'e) operation \<Rightarrow> ('w, 'e) RetryOptions \<Rightarrow> real \<Rightarrow> nat \<Rightarrow> 'w
     \<Rightarrow> ('a, 'e) step \<times> 'e call list \<times> 'w" where
  "iteration rt fn options startTime att w =
     (case before_attempt rt options startTime w of
        Some e \<Rightarrow> (Done (Rejected e), [], w)
      | None \<Rightarrow>
          (case run_attempt rt fn options att w of
             (Fulfilled v, tr, w1) \<Rightarrow> (Done (Fulfilled v), tr, w1)
           | (Pending, tr, w1) \<Rightarrow> (Done Pending, tr, w1)
           | (Rejected error, tr, w1) \<Rightarrow>
               (case on_error rt options startTime att error w1 of
                  (Rejected e, tr2, w2) \<Rightarrow> (Done (Rejected e), tr @ Failed att error # tr2, w2)
                | (Pending, tr2, w2) \<Rightarrow> (Done Pending, tr @ Failed att error # tr2, w2)
                | (Fulfilled nd, tr2, w2) \<Rightarrow>
                    (case before_next rt options startTime nd w2 of
                       (Rejected e, tr3, w3) \<Rightarrow>
                         (Done (Rejected e), tr @ Failed att error # tr2 @ tr3, w3)
                     | (Pending, tr3, w3) \<Rightarrow>
                         (Done Pending, tr @ Failed att error # tr2 @ tr3, w3)
                     | (Fulfilled u, tr3, w3) \<Rightarrow>
                         (Next error, tr @ Failed att error # tr2 @ tr3, w3)))))"

text \<open>
  The \<^verbatim>\<open>for\<close> loop, and the \<^verbatim>\<open>throw lastError\<close> after it (\<^verbatim>\<open>lastError\<close> is
  \<^verbatim>\<open>undefined\<close> until a \<^verbatim>\<open>catch\<close> block has run).
\<close>

function retry_loop ::
  "'w runtime \<Rightarrow> ('w, 'a, 'e) operation \<Rightarrow> ('w, 'e) RetryOptions \<Rightarrow> real \<Rightarrow> 'e thrown option
     \<Rightarrow> nat \<Rightarrow> 'w \<Rightarrow> ('a, 'e) promise \<times> 'e call list \<times> 'w" where
  "retry_loop rt fn options startTime lastError att w =
     (if real att \<le> the_retries options + 1 then
        (case iteration rt fn options startTime att w of
           (Done p, tr, w') \<Rightarrow> (p, tr, w')
         | (Next error, tr, w') \<Rightarrow>
             (case retry_loop rt fn options startTime (Some error) (Suc att) w' of
                (p, tr', w'') \<Rightarrow> (p, tr @ tr', w'')))
      else (Rejected (case lastError of None \<Rightarrow> Undefined | Some e \<Rightarrow> e), [], w))"
  by pat_completeness auto
termination
proof (relation "measure (\<lambda>(rt, fn, options, startTime, lastError, att, w).
                   nat \<lceil>the_retries options\<rceil> + 2 - att)", goal_cases)
  case 1
  show ?case by simp
next
  case (2 rt fn options startTime lastError att w)
  have "real att - 1 \<le> the_retries options" using 2(1) by simp
  also have "\<dots> \<le> of_int \<lceil>the_retries options\<rceil>" by (rule le_of_int_ceiling)
  finally have "int att - 1 \<le> \<lceil>the_retries options\<rceil>" by linarith
  then have "nat \<lceil>the_retries options\<rceil> + 2 - Suc att < nat \<lceil>the_retries options\<rceil> + 2 - att"
    by linarith
  then show ?case by simp
qed

declare retry_loop.simps [simp del]

text \<open>
  \<^verbatim>\<open>retry\<close>: the validation, the check of the signal, the read of
  \<^verbatim>\<open>startTime\<close>, and the loop, which is entered a moment later: at its first check of
  the total timeout the clock may read more than \<^verbatim>\<open>startTime\<close>.
\<close>

definition retry ::
  "'w runtime \<Rightarrow> ('w, 'a, 'e) operation \<Rightarrow> ('w, 'e) RetryOptions \<Rightarrow> 'w
     \<Rightarrow> ('a, 'e) promise \<times> 'e call list \<times> 'w" where
  "retry rt fn options w =
     (case validate options of
        Some m \<Rightarrow> (Rejected (TypeError m), [], w)
      | None \<Rightarrow>
          (if signal_aborted (signal options) w then (Rejected new_AbortError, [], w)
           else (let startTime = Date_now rt w
                 in retry_loop rt fn options startTime None 1 (tick rt w))))"

subsection \<open>retryable\<close>

text \<open>
  The wrapped function takes its arguments \<open>args\<close> and not the attempt number: the
  wrapper passes \<^verbatim>\<open>() => fn(...args)\<close> to \<^verbatim>\<open>retry\<close>.
\<close>

definition retryable ::
  "'w runtime \<Rightarrow> ('args \<Rightarrow> 'w \<Rightarrow> ('w, 'a, 'e) settlement) \<Rightarrow> ('w, 'e) RetryOptions
     \<Rightarrow> 'args \<Rightarrow> 'w \<Rightarrow> ('a, 'e) promise \<times> 'e call list \<times> 'w" where
  "retryable rt fn options = (\<lambda>args. retry rt (\<lambda>att. fn args) options)"

subsection \<open>Results\<close>

text \<open>
  \<^verbatim>\<open>retry\<close> and the parts of its loop return a triple: what the caller gets, the calls
  made, and the world at the end.
\<close>

abbreviation outcome :: "'a \<times> 'b \<times> 'c \<Rightarrow> 'a" where
  "outcome r \<equiv> fst r"

abbreviation calls :: "'a \<times> 'b \<times> 'c \<Rightarrow> 'b" where
  "calls r \<equiv> fst (snd r)"

abbreviation world :: "'a \<times> 'b \<times> 'c \<Rightarrow> 'c" where
  "world r \<equiv> snd (snd r)"

subsection \<open>Example runs\<close>

text \<open>
  A world that is only a clock, in milliseconds. No time passes between two reads of the
  clock, \<^verbatim>\<open>Math.random()\<close> gives 1/4 every time, \<^verbatim>\<open>Math.pow\<close> is the power with an
  integer exponent rounded to a double, and a timer fires on time with nothing else in
  between (after one millisecond when the delay is not finite), before a settlement of
  the same millisecond.
\<close>

fun milliseconds :: "number \<Rightarrow> nat" where
  "milliseconds (Finite d) = nat \<lceil>d\<rceil>"
| "milliseconds x = 1"

definition rt0 :: "nat runtime" where
  "rt0 = \<lparr>Date_now = real, tick = (\<lambda>w. w), Math_random = (\<lambda>w. (1/4, w)),
          Math_pow = (\<lambda>x y. to_double (x powi \<lfloor>y\<rfloor>)),
          setTimeout = (\<lambda>ms w. [(TimerFires, w + milliseconds ms)]),
          settles_first = (\<lambda>ws wk. False)\<rparr>"



text \<open>\<^verbatim>\<open>{}\<close>\<close>

definition no_options :: "(nat, string) RetryOptions" where
  "no_options = \<lparr>retries = None, minTimeout = None, maxTimeout = None, factor = None,
     jitter = None, attemptTimeout = None, totalTimeout = None, signal = None,
     retryIf = None, onRetry = None\<rparr>"

text \<open>An operation that takes \<open>d\<close> milliseconds and then throws.\<close>

definition failing :: "nat \<Rightarrow> (nat, nat, string) operation" where
  "failing d att w = Some (Inl (Thrown ''boom''), w + d)"

text \<open>An operation that returns the attempt number after 200 ms.\<close>

definition slow :: "(nat, nat, string) operation" where
  "slow att w = Some (Inr att, w + 200)"

text \<open>An operation that fails twice and then returns the attempt number.\<close>

definition flaky :: "(nat, nat, string) operation" where
  "flaky att w =
     (if att \<le> 2 then Some (Inl (Thrown ''boom''), w + 5)
      else Some (Inr att, w + 5))"

text \<open>A signal that is aborted from the start, and one that is from time 100 on.\<close>

definition aborted_signal :: "nat AbortSignal" where
  "aborted_signal = \<lparr>aborted = (\<lambda>w. True)\<rparr>"

definition abort_at_100 :: "nat AbortSignal" where
  "abort_at_100 = \<lparr>aborted = (\<lambda>w. 100 \<le> w)\<rparr>"

text \<open>
  Callbacks: a predicate that accepts and one that refuses, one that accepts the first
  failure only, an observer that does nothing, a callback that throws.
\<close>

definition accept :: "(nat, bool, string) callback" where
  "accept error context w = Some (Inr True, w)"

definition refuse :: "(nat, bool, string) callback" where
  "refuse error context w = Some (Inr False, w)"


definition observe :: "(nat, unit, string) callback" where
  "observe error context w = Some (Inr (), w)"

definition throwing :: "(nat, 'r, string) callback" where
  "throwing error context w = Some (Inl (Thrown ''callback''), w)"

text \<open>
  Options for the runs below. With \<open>deadline_options\<close> the total timeout and the abort
  fall on the same instant, time 100.
\<close>

definition deadline_options :: "(nat, string) RetryOptions" where
  "deadline_options = no_options\<lparr>retries := Some 3, minTimeout := Some 50, jitter := Some False,
     totalTimeout := Some 100, signal := Some abort_at_100\<rparr>"

text \<open>
  The runtime of a caller who aborts at time 100: a timer that is pending then is
  overtaken by the abort event.
\<close>

definition rt1 :: "nat runtime" where
  "rt1 = rt0\<lparr>setTimeout :=
            (\<lambda>ms w. if w < 100 \<and> 100 < w + milliseconds ms
                     then [(AbortFires, 100), (TimerFires, w + milliseconds ms)]
                     else [(TimerFires, w + milliseconds ms)])\<rparr>"

text \<open>A timeout of 20 ms on each attempt, a delay of 100 ms, and the signal aborted at 100.\<close>

definition abortable_options :: "(nat, string) RetryOptions" where
  "abortable_options = no_options\<lparr>minTimeout := Some 100, jitter := Some False,
     attemptTimeout := Some 20, signal := Some abort_at_100\<rparr>"



text \<open>A predicate that refuses every error, next to an observer.\<close>

definition picky_options :: "(nat, string) RetryOptions" where
  "picky_options = no_options\<lparr>minTimeout := Some 10, jitter := Some False,
     retryIf := Some refuse, onRetry := Some observe\<rparr>"

text \<open>A predicate that throws; an observer that throws.\<close>

definition broken_predicate_options :: "(nat, string) RetryOptions" where
  "broken_predicate_options = no_options\<lparr>minTimeout := Some 10, jitter := Some False,
     retryIf := Some throwing, onRetry := Some observe\<rparr>"

definition broken_observer_options :: "(nat, string) RetryOptions" where
  "broken_observer_options = no_options\<lparr>minTimeout := Some 10, jitter := Some False,
     onRetry := Some throwing\<rparr>"

text \<open>An observer, with no predicate and with one that accepts.\<close>

definition observed_options :: "(nat, string) RetryOptions" where
  "observed_options = no_options\<lparr>minTimeout := Some 10, jitter := Some False,
     onRetry := Some observe\<rparr>"

definition accepting_options :: "(nat, string) RetryOptions" where
  "accepting_options = observed_options\<lparr>retryIf := Some accept\<rparr>"

text \<open>A total timeout of 100 ms with a first delay of 60 ms.\<close>

definition budget_options :: "(nat, string) RetryOptions" where
  "budget_options = no_options\<lparr>minTimeout := Some 60, jitter := Some False,
     totalTimeout := Some 100\<rparr>"

text \<open>The same with an observer.\<close>

definition observed_budget_options :: "(nat, string) RetryOptions" where
  "observed_budget_options = budget_options\<lparr>onRetry := Some observe\<rparr>"


section \<open>Properties\<close>

subsection \<open>Evaluation\<close>

text \<open>The equations that evaluate a run, and the rounding of a given real.\<close>

lemmas retry_defs =
  retry_def validate_def the_retries_def the_minTimeout_def the_maxTimeout_def
  the_factor_def the_jitter_def Number_isInteger_def signal_aborted_def iteration_def
  before_attempt_def run_attempt_def on_error_def before_next_def call_retryIf_def
  call_onRetry_def sleep_def withTimeout_def await_fn_def
  new_AbortError_def Let_def

lemma rt0_fields:
  "Date_now rt0 = real" "tick rt0 = (\<lambda>w. w)" "Math_random rt0 = (\<lambda>w. (1/4, w))"
  "setTimeout rt0 = (\<lambda>ms w. [(TimerFires, w + milliseconds ms)])"
  by (simp_all add: rt0_def)

lemmas example_defs =
  rt0_fields no_options_def failing_def

lemma binade_ge: "2 \<le> a \<Longrightarrow> binade a = binade (a / 2) + 1"
  by (subst binade.simps) simp

lemma binade_less: "0 < a \<Longrightarrow> a < 1 \<Longrightarrow> binade a = binade (a * 2) - 1"
  by (subst binade.simps) simp

lemma binade_unit: "1 \<le> a \<Longrightarrow> a < 2 \<Longrightarrow> binade a = 0"
  by (subst binade.simps) simp

lemmas double_defs =
  to_double_def pow2_def round_even_def binade_ge binade_less binade_unit Let_def

text \<open>The delays of the example runs.\<close>

lemma rt0_delays:
  "calculateDelay rt0 1 10 30000 2 False w = (Finite 10, w)"
  "calculateDelay rt0 2 10 30000 2 False w = (Finite 20, w)"
  "calculateDelay rt0 1 10 30000 2 True w = (Finite 9, w)"
  "calculateDelay rt0 2 10 30000 2 True w = (Finite 18, w)"
  "calculateDelay rt0 1 50 30000 2 False w = (Finite 50, w)"
  "calculateDelay rt0 1 60 30000 2 False w = (Finite 60, w)"
  "calculateDelay rt0 1 100 30000 2 False w = (Finite 100, w)"
  by (simp_all add: calculateDelay_def rt0_def double_defs round_def)

subsection \<open>Validation\<close>

lemma Number_isInteger_iff: "Number_isInteger x \<longleftrightarrow> x \<in> \<int>"
  unfolding Number_isInteger_def
  by (metis Ints_of_int Ints_cases of_int_floor_cancel floor_of_int)

lemma validate_Some_iff:
  "validate options \<noteq> None \<longleftrightarrow>
     the_retries options < 0 \<or> the_retries options \<notin> \<int> \<or> the_minTimeout options \<le> 0 \<or>
     the_maxTimeout options \<le> 0 \<or> the_factor options \<le> 0 \<or>
     (\<exists>t. attemptTimeout options = Some t \<and> t \<le> 0) \<or>
     (\<exists>t. totalTimeout options = Some t \<and> t \<le> 0)"
  by (auto simp: validate_def Number_isInteger_iff split: option.splits)

text \<open>
  C6. When a field of the configuration violates its constraint (retries negative or
  not an integer; minTimeout, maxTimeout, factor, attemptTimeout or totalTimeout not
  positive), \<^verbatim>\<open>retry\<close> rejects with a \<^verbatim>\<open>TypeError\<close> at once: the operation is not
  invoked, no callback and no sleep is called, the world is untouched, and nothing is
  retried.
\<close>

theorem C6_invalid_configuration:
  assumes "the_retries options < 0 \<or> the_retries options \<notin> \<int> \<or>
           the_minTimeout options \<le> 0 \<or> the_maxTimeout options \<le> 0 \<or>
           the_factor options \<le> 0 \<or>
           (\<exists>t. attemptTimeout options = Some t \<and> t \<le> 0) \<or>
           (\<exists>t. totalTimeout options = Some t \<and> t \<le> 0)"
  shows "\<exists>m. retry rt fn options w = (Rejected (TypeError m), [], w)"
proof -
  from assms have "validate options \<noteq> None" by (simp only: validate_Some_iff)
  then obtain m where "validate options = Some m" by auto
  then show ?thesis by (simp add: retry_def)
qed

theorem C6_invalid_configuration_witness:
  "\<exists>m. retry rt0 (failing 5) (no_options\<lparr>retries := Some (3/2)\<rparr>) 0
         = (Rejected (TypeError m), [], 0)"
proof -
  have "the_retries (no_options\<lparr>retries := Some (3/2)\<rparr>) \<notin> \<int>"
    by (simp add: the_retries_def Number_isInteger_iff [symmetric] Number_isInteger_def)
  then show ?thesis
    using C6_invalid_configuration [of "no_options\<lparr>retries := Some (3/2)\<rparr>" rt0 "failing 5" 0]
    by blast
qed

subsection \<open>The backoff delay\<close>




subsection \<open>The loop, one iteration at a time\<close>

lemma retry_loop_exit:
  "\<not> real att \<le> the_retries options + 1 \<Longrightarrow>
   retry_loop rt fn options st le att w
     = (Rejected (case le of None \<Rightarrow> Undefined | Some e \<Rightarrow> e), [], w)"
  by (subst retry_loop.simps) simp

lemma retry_loop_done:
  assumes "real att \<le> the_retries options + 1"
    and "outcome (iteration rt fn options st att w) = Done p"
  shows "retry_loop rt fn options st le att w
     = (p, calls (iteration rt fn options st att w), world (iteration rt fn options st att w))"
  using assms by (subst retry_loop.simps) (auto split: prod.splits)

lemma retry_loop_next:
  assumes "real att \<le> the_retries options + 1"
    and "outcome (iteration rt fn options st att w) = Next e"
  shows "retry_loop rt fn options st le att w
     = (outcome (retry_loop rt fn options st (Some e) (Suc att)
                  (world (iteration rt fn options st att w))),
        calls (iteration rt fn options st att w)
          @ calls (retry_loop rt fn options st (Some e) (Suc att)
                    (world (iteration rt fn options st att w))),
        world (retry_loop rt fn options st (Some e) (Suc att)
                (world (iteration rt fn options st att w))))"
  using assms by (subst retry_loop.simps) (auto split: prod.splits)

lemma retry_loop_induct [case_names exit stop continue]:
  assumes "\<And>le att w. \<not> real att \<le> the_retries options + 1 \<Longrightarrow> P le att w"
    and "\<And>le att w p. real att \<le> the_retries options + 1 \<Longrightarrow>
           outcome (iteration rt fn options st att w) = Done p \<Longrightarrow> P le att w"
    and "\<And>le att w e. real att \<le> the_retries options + 1 \<Longrightarrow>
           outcome (iteration rt fn options st att w) = Next e \<Longrightarrow>
           P (Some e) (Suc att) (world (iteration rt fn options st att w)) \<Longrightarrow> P le att w"
  shows "P le att w"
proof (induction "nat \<lceil>the_retries options\<rceil> + 2 - att" arbitrary: le att w rule: less_induct)
  case (less att le w)
  show ?case
  proof (cases "real att \<le> the_retries options + 1")
    case False
    then show ?thesis by (rule assms(1))
  next
    case True
    have "real att - 1 \<le> the_retries options" using True by simp
    also have "\<dots> \<le> of_int \<lceil>the_retries options\<rceil>" by (rule le_of_int_ceiling)
    finally have "int att - 1 \<le> \<lceil>the_retries options\<rceil>" by linarith
    then have m: "nat \<lceil>the_retries options\<rceil> + 2 - Suc att
                  < nat \<lceil>the_retries options\<rceil> + 2 - att"
      by linarith
    show ?thesis
    proof (cases "outcome (iteration rt fn options st att w)")
      case (Done p)
      with True show ?thesis by (rule assms(2))
    next
      case (Next e)
      have "P (Some e) (Suc att) (world (iteration rt fn options st att w))"
        using less [OF m] .
      then show ?thesis using assms(3) [OF True Next] by simp
    qed
  qed
qed

lemma iteration_cases [case_names stopped fulfilled pending thrown stuck cut asleep continue]:
  obtains
    e where "before_attempt rt options st w = Some e"
      and "iteration rt fn options st att w = (Done (Rejected e), [], w)"
  | v tr w1 where "before_attempt rt options st w = None"
      and "run_attempt rt fn options att w = (Fulfilled v, tr, w1)"
      and "iteration rt fn options st att w = (Done (Fulfilled v), tr, w1)"
  | tr w1 where "before_attempt rt options st w = None"
      and "run_attempt rt fn options att w = (Pending, tr, w1)"
      and "iteration rt fn options st att w = (Done Pending, tr, w1)"
  | error tr w1 e tr2 w2 where "before_attempt rt options st w = None"
      and "run_attempt rt fn options att w = (Rejected error, tr, w1)"
      and "on_error rt options st att error w1 = (Rejected e, tr2, w2)"
      and "iteration rt fn options st att w = (Done (Rejected e), tr @ Failed att error # tr2, w2)"
  | error tr w1 tr2 w2 where "before_attempt rt options st w = None"
      and "run_attempt rt fn options att w = (Rejected error, tr, w1)"
      and "on_error rt options st att error w1 = (Pending, tr2, w2)"
      and "iteration rt fn options st att w = (Done Pending, tr @ Failed att error # tr2, w2)"
  | error tr w1 nd tr2 w2 e tr3 w3 where "before_attempt rt options st w = None"
      and "run_attempt rt fn options att w = (Rejected error, tr, w1)"
      and "on_error rt options st att error w1 = (Fulfilled nd, tr2, w2)"
      and "before_next rt options st nd w2 = (Rejected e, tr3, w3)"
      and "iteration rt fn options st att w
             = (Done (Rejected e), tr @ Failed att error # tr2 @ tr3, w3)"
  | error tr w1 nd tr2 w2 tr3 w3 where "before_attempt rt options st w = None"
      and "run_attempt rt fn options att w = (Rejected error, tr, w1)"
      and "on_error rt options st att error w1 = (Fulfilled nd, tr2, w2)"
      and "before_next rt options st nd w2 = (Pending, tr3, w3)"
      and "iteration rt fn options st att w
             = (Done Pending, tr @ Failed att error # tr2 @ tr3, w3)"
  | error tr w1 nd tr2 w2 tr3 w3 where "before_attempt rt options st w = None"
      and "run_attempt rt fn options att w = (Rejected error, tr, w1)"
      and "on_error rt options st att error w1 = (Fulfilled nd, tr2, w2)"
      and "before_next rt options st nd w2 = (Fulfilled (), tr3, w3)"
      and "iteration rt fn options st att w
             = (Next error, tr @ Failed att error # tr2 @ tr3, w3)"
proof (cases "before_attempt rt options st w")
  case (Some e)
  then have "iteration rt fn options st att w = (Done (Rejected e), [], w)"
    by (simp add: iteration_def)
  with Some show ?thesis by (rule that(1))
next
  case None
  obtain p tr w1 where ra: "run_attempt rt fn options att w = (p, tr, w1)"
    by (cases "run_attempt rt fn options att w") auto
  show ?thesis
  proof (cases p)
    case (Fulfilled v)
    with None ra show ?thesis by (intro that(2)) (simp_all add: iteration_def)
  next
    case Pending
    with None ra show ?thesis by (intro that(3)) (simp_all add: iteration_def)
  next
    case (Rejected error)
    obtain q tr2 w2 where oe: "on_error rt options st att error w1 = (q, tr2, w2)"
      by (cases "on_error rt options st att error w1") auto
    show ?thesis
    proof (cases q)
      case (Rejected e)
      with None ra oe \<open>p = Rejected error\<close> show ?thesis
        by (intro that(4)) (simp_all add: iteration_def)
    next
      case Pending
      with None ra oe \<open>p = Rejected error\<close> show ?thesis
        by (intro that(5)) (simp_all add: iteration_def)
    next
      case (Fulfilled nd)
      obtain s tr3 w3 where bn: "before_next rt options st nd w2 = (s, tr3, w3)"
        by (cases "before_next rt options st nd w2") auto
      show ?thesis
      proof (cases s)
        case (Rejected e)
        with None ra oe bn \<open>p = Rejected error\<close> \<open>q = Fulfilled nd\<close> show ?thesis
          by (intro that(6)) (simp_all add: iteration_def)
      next
        case Pending
        with None ra oe bn \<open>p = Rejected error\<close> \<open>q = Fulfilled nd\<close> show ?thesis
          by (intro that(7)) (simp_all add: iteration_def)
      next
        case (Fulfilled u)
        with None ra oe bn \<open>p = Rejected error\<close> \<open>q = Fulfilled nd\<close> show ?thesis
          by (intro that(8)) (simp_all add: iteration_def)
      qed
    qed
  qed
qed

lemma run_attempt_calls:
  "calls (run_attempt rt fn options att w)
     = (if attemptTimeout options \<noteq> None \<and> signal_aborted (signal options) w then []
        else [Invoked att])"
  by (auto simp: run_attempt_def withTimeout_def await_fn_def
      split: option.splits prod.splits)

lemma before_next_calls:
  "calls (before_next rt options st nd w) = [] \<or> calls (before_next rt options st nd w) = [Slept nd]"
  by (auto simp: before_next_def split: prod.splits)

lemma call_retryIf_calls:
  "calls (call_retryIf cb error ctx w) = (if cb = None then [] else [RetryIfCalled error ctx])"
  by (auto simp: call_retryIf_def split: option.splits prod.splits sum.splits)

lemma call_onRetry_calls:
  "calls (call_onRetry cb error ctx w) = (if cb = None then [] else [OnRetryCalled error ctx])"
  by (auto simp: call_onRetry_def split: option.splits prod.splits sum.splits)

lemma on_error_terminal:
  "instanceof_AbortError error \<or> the_retries options + 1 - real att = 0 \<Longrightarrow>
   on_error rt options st att error w = (Rejected error, [], w)"
  by (auto simp: on_error_def Let_def)

lemma on_error_calls:
  assumes "c \<in> set (calls (on_error rt options st att error w))"
  shows "(c = RetryIfCalled error (the_context rt options st att w) \<and> retryIf options \<noteq> None \<or>
          c = OnRetryCalled error (the_context rt options st att w) \<and> onRetry options \<noteq> None) \<and>
         \<not> instanceof_AbortError error \<and> the_retries options + 1 - real att \<noteq> 0"
proof -
  obtain nd w1 where cd: "calculateDelay rt (int att) (the_minTimeout options)
      (the_maxTimeout options) (the_factor options) (the_jitter options) w = (nd, w1)"
    by (cases "calculateDelay rt (int att) (the_minTimeout options)
      (the_maxTimeout options) (the_factor options) (the_jitter options) w") auto
  let ?ctx = "the_context rt options st att w"
  obtain p1 tr1 w2 where r1: "call_retryIf (retryIf options) error ?ctx w1 = (p1, tr1, w2)"
    by (cases "call_retryIf (retryIf options) error ?ctx w1") auto
  obtain p2 tr2 w3 where r2: "call_onRetry (onRetry options) error ?ctx w2 = (p2, tr2, w3)"
    by (cases "call_onRetry (onRetry options) error ?ctx w2") auto
  have t1: "tr1 = (if retryIf options = None then [] else [RetryIfCalled error ?ctx])"
    using call_retryIf_calls [of "retryIf options" error ?ctx w1] r1 by simp
  have t2: "tr2 = (if onRetry options = None then [] else [OnRetryCalled error ?ctx])"
    using call_onRetry_calls [of "onRetry options" error ?ctx w2] r2 by simp
  show ?thesis
    using assms cd r1 r2 t1 t2
    by (auto simp: on_error_def Let_def the_context_def split: if_splits promise.splits)
qed

lemma counts_append [simp]:
  "invocations (xs @ ys) = invocations xs + invocations ys"
  "failedAttempts (xs @ ys) = failedAttempts xs + failedAttempts ys"
  "onRetryCalls (xs @ ys) = onRetryCalls xs + onRetryCalls ys"
  by (simp_all add: invocations_def failedAttempts_def onRetryCalls_def)

lemma counts_Nil [simp]:
  "invocations [] = 0" "failedAttempts [] = 0" "onRetryCalls [] = 0"
  by (simp_all add: invocations_def failedAttempts_def onRetryCalls_def)

lemma counts_Cons [simp]:
  "invocations (c # xs) = (if is_Invoked c then 1 else 0) + invocations xs"
  "failedAttempts (c # xs) = (if is_Failed c then 1 else 0) + failedAttempts xs"
  "onRetryCalls (c # xs) = (if is_OnRetryCalled c then 1 else 0) + onRetryCalls xs"
  by (simp_all add: invocations_def failedAttempts_def onRetryCalls_def)

lemma on_error_no_attempt:
  "invocations (calls (on_error rt options st att error w)) = 0"
  "failedAttempts (calls (on_error rt options st att error w)) = 0"
proof -
  have "\<not> is_Invoked c \<and> \<not> is_Failed c"
    if "c \<in> set (calls (on_error rt options st att error w))" for c
    using on_error_calls [OF that] by auto
  then show "invocations (calls (on_error rt options st att error w)) = 0"
    "failedAttempts (calls (on_error rt options st att error w)) = 0"
    by (simp_all add: invocations_def failedAttempts_def filter_empty_conv)
qed

lemma before_next_no_attempt:
  "invocations (calls (before_next rt options st nd w)) = 0"
  "failedAttempts (calls (before_next rt options st nd w)) = 0"
  "onRetryCalls (calls (before_next rt options st nd w)) = 0"
  using before_next_calls [of rt options st nd w] by auto

lemma run_attempt_counts:
  "invocations (calls (run_attempt rt fn options att w)) \<le> 1"
  "failedAttempts (calls (run_attempt rt fn options att w)) = 0"
  "onRetryCalls (calls (run_attempt rt fn options att w)) = 0"
  by (simp_all add: run_attempt_calls)



subsection \<open>How often the operation is invoked\<close>

lemma before_attempt_None:
  "before_attempt rt options st w = None \<longleftrightarrow>
     \<not> (\<exists>t. totalTimeout options = Some t \<and> t \<le> Date_now rt w - st) \<and>
     \<not> signal_aborted (signal options) w"
  by (auto simp: before_attempt_def Let_def split: option.splits)

lemma before_attempt_timeout:
  "totalTimeout options = Some t \<Longrightarrow> t \<le> Date_now rt w - st \<Longrightarrow>
   before_attempt rt options st w = Some (TimeoutError (TotalTimeoutExceeded t))"
  by (simp add: before_attempt_def)

lemma before_attempt_abort:
  "\<not> (\<exists>t. totalTimeout options = Some t \<and> t \<le> Date_now rt w - st) \<Longrightarrow>
   signal_aborted (signal options) w \<Longrightarrow>
   before_attempt rt options st w = Some new_AbortError"
  by (auto simp: before_attempt_def Let_def split: option.splits)

lemma iteration_stopped:
  "before_attempt rt options st w = Some e \<Longrightarrow>
   iteration rt fn options st att w = (Done (Rejected e), [], w)"
  by (simp add: iteration_def)



lemma validate_None:
  assumes "validate options = None"
  shows "0 \<le> the_retries options" and "the_retries options \<in> \<int>"
    and "totalTimeout options = Some t \<Longrightarrow> 0 < t"
    and "attemptTimeout options = Some t \<Longrightarrow> 0 < t"
proof -
  have n: "\<not> validate options \<noteq> None" using assms by simp
  show "0 \<le> the_retries options" "the_retries options \<in> \<int>"
    using n unfolding validate_Some_iff by auto
  show "totalTimeout options = Some t \<Longrightarrow> 0 < t"
    using n unfolding validate_Some_iff by auto
  show "attemptTimeout options = Some t \<Longrightarrow> 0 < t"
    using n unfolding validate_Some_iff by auto
qed

lemma retry_valid:
  assumes "validate options = None" and "\<not> signal_aborted (signal options) w"
  shows "retry rt fn options w = retry_loop rt fn options (Date_now rt w) None 1 (tick rt w)"
  using assms by (simp add: retry_def)

lemma retry_loop_stopped:
  assumes "real att \<le> the_retries options + 1"
    and "before_attempt rt options st w = Some e"
  shows "retry_loop rt fn options st le att w = (Rejected e, [], w)"
  using retry_loop_done [OF assms(1), of rt fn st w "Rejected e" le]
    iteration_stopped [OF assms(2), of fn att] by simp




subsection \<open>Cancellation\<close>

lemma iteration_call:
  assumes "c \<in> set (calls (iteration rt fn options st att w))"
  shows "c = Invoked att \<or>
         (\<exists>error tr w1. before_attempt rt options st w = None \<and>
            run_attempt rt fn options att w = (Rejected error, tr, w1) \<and>
            (c = Failed att error \<or> c \<in> set (calls (on_error rt options st att error w1)) \<or>
             (\<exists>nd tr2 w2. on_error rt options st att error w1 = (Fulfilled nd, tr2, w2) \<and>
                c = Slept nd)))"
proof (cases rule: iteration_cases [of rt options st w fn att])
  case (stopped e)
  then show ?thesis using assms by simp
next
  case (fulfilled v tr w1)
  then show ?thesis
    using assms run_attempt_calls [of rt fn options att w] by (auto split: if_splits)
next
  case (pending tr w1)
  then show ?thesis
    using assms run_attempt_calls [of rt fn options att w] by (auto split: if_splits)
next
  case (thrown error tr w1 e tr2 w2)
  then show ?thesis
    using assms run_attempt_calls [of rt fn options att w] by (auto split: if_splits)
next
  case (stuck error tr w1 tr2 w2)
  then show ?thesis
    using assms run_attempt_calls [of rt fn options att w] by (auto split: if_splits)
next
  case (cut error tr w1 nd tr2 w2 e tr3 w3)
  then show ?thesis
    using assms run_attempt_calls [of rt fn options att w]
      before_next_calls [of rt options st nd w2] by (auto split: if_splits)
next
  case (asleep error tr w1 nd tr2 w2 tr3 w3)
  then show ?thesis
    using assms run_attempt_calls [of rt fn options att w]
      before_next_calls [of rt options st nd w2] by (auto split: if_splits)
next
  case (continue error tr w1 nd tr2 w2 tr3 w3)
  then show ?thesis
    using assms run_attempt_calls [of rt fn options att w]
      before_next_calls [of rt options st nd w2] by (auto split: if_splits)
qed

lemma retry_loop_call:
  assumes "c \<in> set (calls (retry_loop rt fn options st le att w))"
  shows "\<exists>att' w'. att \<le> att' \<and> real att' \<le> the_retries options + 1 \<and>
           c \<in> set (calls (iteration rt fn options st att' w'))"
  using assms
proof (induction le att w rule: retry_loop_induct [of options _ rt fn st])
  case (exit le att w)
  then show ?case by (simp add: retry_loop_exit)
next
  case (stop le att w p)
  then show ?case using retry_loop_done [OF stop(1,2)] by auto
next
  case (continue le att w e)
  let ?it = "iteration rt fn options st att w"
  have "c \<in> set (calls ?it) \<or>
        c \<in> set (calls (retry_loop rt fn options st (Some e) (Suc att) (world ?it)))"
    using continue(4) retry_loop_next [OF continue(1,2)] by simp
  then show ?case
  proof
    assume "c \<in> set (calls ?it)"
    with continue(1) show ?thesis by blast
  next
    assume "c \<in> set (calls (retry_loop rt fn options st (Some e) (Suc att) (world ?it)))"
    from continue(3) [OF this] obtain att' w' where "Suc att \<le> att'"
      "real att' \<le> the_retries options + 1" "c \<in> set (calls (iteration rt fn options st att' w'))"
      by blast
    then show ?thesis by (intro exI [of _ att'] exI [of _ w']) simp
  qed
qed

lemma iteration_Failed:
  assumes "Failed n e \<in> set (calls (iteration rt fn options st att w))"
  shows "n = att \<and> before_attempt rt options st w = None \<and>
         (\<exists>tr w1. run_attempt rt fn options att w = (Rejected e, tr, w1))"
  using iteration_call [OF assms] on_error_calls by fastforce

lemma iteration_terminal_failure:
  assumes "Failed n e \<in> set (calls (iteration rt fn options st att w))"
    and "instanceof_AbortError e \<or> the_retries options + 1 - real att = 0"
  shows "iteration rt fn options st att w
           = (Done (Rejected e), calls (run_attempt rt fn options att w) @ [Failed att e],
              world (run_attempt rt fn options att w))"
proof -
  from iteration_Failed [OF assms(1)] obtain tr w1 where
    b: "before_attempt rt options st w = None"
    and r: "run_attempt rt fn options att w = (Rejected e, tr, w1)" by blast
  have "on_error rt options st att e w1 = (Rejected e, [], w1)"
    using assms(2) by (rule on_error_terminal)
  with b r show ?thesis by (simp add: iteration_def)
qed

lemma retry_loop_terminal_failure:
  assumes "Failed n e \<in> set (calls (retry_loop rt fn options st le att w))"
    and "instanceof_AbortError e \<or> real n = the_retries options + 1"
  shows "outcome (retry_loop rt fn options st le att w) = Rejected e"
  using assms(1)
proof (induction le att w rule: retry_loop_induct [of options _ rt fn st])
  case (exit le att w)
  then show ?case by (simp add: retry_loop_exit)
next
  case (stop le att w p)
  have f: "Failed n e \<in> set (calls (iteration rt fn options st att w))"
    using stop(3) retry_loop_done [OF stop(1,2)] by simp
  from iteration_Failed [OF f] have "n = att" by simp
  with assms(2) have "instanceof_AbortError e \<or> the_retries options + 1 - real att = 0"
    by auto
  from iteration_terminal_failure [OF f this] stop(2) have "p = Rejected e" by simp
  then show ?case using retry_loop_done [OF stop(1,2)] by simp
next
  case (continue le att w e')
  let ?it = "iteration rt fn options st att w"
  have "Failed n e \<notin> set (calls ?it)"
  proof
    assume f: "Failed n e \<in> set (calls ?it)"
    from iteration_Failed [OF f] have "n = att" by simp
    with assms(2) have "instanceof_AbortError e \<or> the_retries options + 1 - real att = 0"
      by auto
    from iteration_terminal_failure [OF f this] continue(2) show False by simp
  qed
  then have "Failed n e \<in> set (calls (retry_loop rt fn options st (Some e') (Suc att) (world ?it)))"
    using continue(4) retry_loop_next [OF continue(1,2)] by simp
  from continue(3) [OF this] show ?case using retry_loop_next [OF continue(1,2)] by simp
qed

lemma retry_call:
  assumes "c \<in> set (calls (retry rt fn options w))"
  shows "validate options = None \<and> \<not> signal_aborted (signal options) w \<and>
         retry rt fn options w = retry_loop rt fn options (Date_now rt w) None 1 (tick rt w)"
  using assms by (auto simp: retry_def split: option.splits if_splits)

lemma instanceof_new_AbortError [simp]: "instanceof_AbortError new_AbortError"
  by (simp add: new_AbortError_def)

lemma run_attempt_wakeup:
  assumes "\<not> signal_aborted (signal options) w"
    and "attemptTimeout options = Some t"
    and "List.find (\<lambda>(k, w'). listening (signal options \<noteq> None) k) (setTimeout rt (Finite t) w)
           = Some (k, wk)"
    and "fn att w = None \<or> (\<exists>r ws. fn att w = Some (r, ws) \<and> Date_now rt wk < Date_now rt ws)"
  shows "run_attempt rt fn options att w = (woken t k, [Invoked att], wk)"
  using assms by (auto simp: run_attempt_def withTimeout_def)

lemma before_next_abort:
  assumes "\<not> (\<exists>t. totalTimeout options = Some t \<and>
                 less_than (Finite (t - (Date_now rt w - st))) nd)"
    and "if signal_aborted (signal options) w then w' = w
         else List.find (\<lambda>(k, w'). listening (signal options \<noteq> None) k) (setTimeout rt nd w)
                = Some (AbortFires, w')"
  shows "before_next rt options st nd w = (Rejected new_AbortError, [Slept nd], w')"
  using assms by (auto simp: before_next_def sleep_def Let_def split: option.splits if_splits)

text \<open>
  C2, as amended. An abort that is observed ends the call with an \<^verbatim>\<open>AbortError\<close>:
  \<^item> at the call, after validation;
  \<^item> at the head of an iteration, where the total timeout is checked first: with the
    signal aborted the call ends there with no further call, with the
    \<^verbatim>\<open>TimeoutError\<close> when the total timeout has been reached and with the
    \<^verbatim>\<open>AbortError\<close> otherwise;
  \<^item> during an attempt under \<^verbatim>\<open>attemptTimeout\<close>, when the abort event comes first,
    before the timer fires and before the operation settles;
  \<^item> at or during the sleep before the next attempt.

  Whatever attempt fails with an \<^verbatim>\<open>AbortError\<close>, that error is the result of the
  call, and no \<^verbatim>\<open>AbortError\<close> is ever passed to \<^verbatim>\<open>retryIf\<close>.
\<close>

theorem C2_abort_is_terminal:
  "(validate options = None \<and> signal_aborted (signal options) w \<longrightarrow>
      retry rt fn options w = (Rejected new_AbortError, [], w)) \<and>
   (real att \<le> the_retries options + 1 \<and> signal_aborted (signal options) w \<longrightarrow>
      retry_loop rt fn options st le att w =
        (if \<exists>t. totalTimeout options = Some t \<and> t \<le> Date_now rt w - st
         then (Rejected (TimeoutError (TotalTimeoutExceeded (the (totalTimeout options)))), [], w)
         else (Rejected new_AbortError, [], w))) \<and>
   (real att \<le> the_retries options + 1 \<and> before_attempt rt options st w = None \<and>
    attemptTimeout options = Some t \<and>
    List.find (\<lambda>(k, w'). listening (signal options \<noteq> None) k) (setTimeout rt (Finite t) w)
      = Some (AbortFires, w1) \<and>
    (fn att w = None \<or> (\<exists>r ws. fn att w = Some (r, ws) \<and> Date_now rt w1 < Date_now rt ws))
    \<longrightarrow>
      retry_loop rt fn options st le att w
        = (Rejected new_AbortError, [Invoked att, Failed att new_AbortError], w1)) \<and>
   (real att \<le> the_retries options + 1 \<and> before_attempt rt options st w = None \<and>
    run_attempt rt fn options att w = (Rejected error, tr, w1) \<and>
    on_error rt options st att error w1 = (Fulfilled nd, tr2, w2) \<and>
    \<not> (\<exists>t. totalTimeout options = Some t \<and>
         less_than (Finite (t - (Date_now rt w2 - st))) nd) \<and>
    (if signal_aborted (signal options) w2 then w3 = w2
     else List.find (\<lambda>(k, w'). listening (signal options \<noteq> None) k) (setTimeout rt nd w2)
            = Some (AbortFires, w3)) \<longrightarrow>
      retry_loop rt fn options st le att w
        = (Rejected new_AbortError, tr @ Failed att error # tr2 @ [Slept nd], w3)) \<and>
   (\<forall>n e. Failed n e \<in> set (calls (retry rt fn options w)) \<and> instanceof_AbortError e \<longrightarrow>
      outcome (retry rt fn options w) = Rejected e) \<and>
   (\<forall>e c. RetryIfCalled e c \<in> set (calls (retry rt fn options w)) \<longrightarrow>
      \<not> instanceof_AbortError e)"
proof (intro conjI impI allI)
  assume "validate options = None \<and> signal_aborted (signal options) w"
  then show "retry rt fn options w = (Rejected new_AbortError, [], w)"
    by (simp add: retry_def)
next
  assume h: "real att \<le> the_retries options + 1 \<and> signal_aborted (signal options) w"
  show "retry_loop rt fn options st le att w =
        (if \<exists>t. totalTimeout options = Some t \<and> t \<le> Date_now rt w - st
         then (Rejected (TimeoutError (TotalTimeoutExceeded (the (totalTimeout options)))), [], w)
         else (Rejected new_AbortError, [], w))"
  proof (cases "\<exists>t. totalTimeout options = Some t \<and> t \<le> Date_now rt w - st")
    case True
    then obtain t where t: "totalTimeout options = Some t" "t \<le> Date_now rt w - st" by blast
    from h have g: "real att \<le> the_retries options + 1" by simp
    from retry_loop_stopped [OF g before_attempt_timeout [OF t], of fn le] True t
    show ?thesis by simp
  next
    case False
    from h have g: "real att \<le> the_retries options + 1"
      and a: "signal_aborted (signal options) w" by simp_all
    from retry_loop_stopped [OF g before_attempt_abort [OF False a], of fn le] False
    show ?thesis by auto
  qed
next
  assume h: "real att \<le> the_retries options + 1 \<and> before_attempt rt options st w = None \<and>
    attemptTimeout options = Some t \<and>
    List.find (\<lambda>(k, w'). listening (signal options \<noteq> None) k) (setTimeout rt (Finite t) w)
      = Some (AbortFires, w1) \<and>
    (fn att w = None \<or> (\<exists>r ws. fn att w = Some (r, ws) \<and> Date_now rt w1 < Date_now rt ws))"
  then have na: "\<not> signal_aborted (signal options) w" by (simp add: before_attempt_None)
  have ra: "run_attempt rt fn options att w = (Rejected new_AbortError, [Invoked att], w1)"
    using run_attempt_wakeup [OF na, of t rt AbortFires w1 fn att] h by simp
  have "on_error rt options st att new_AbortError w1 = (Rejected new_AbortError, [], w1)"
    by (rule on_error_terminal) simp
  with ra h have "iteration rt fn options st att w
      = (Done (Rejected new_AbortError), [Invoked att, Failed att new_AbortError], w1)"
    by (simp add: iteration_def)
  then show "retry_loop rt fn options st le att w
        = (Rejected new_AbortError, [Invoked att, Failed att new_AbortError], w1)"
    using retry_loop_done [of att options rt fn st w "Rejected new_AbortError" le] h by simp
next
  assume h: "real att \<le> the_retries options + 1 \<and> before_attempt rt options st w = None \<and>
    run_attempt rt fn options att w = (Rejected error, tr, w1) \<and>
    on_error rt options st att error w1 = (Fulfilled nd, tr2, w2) \<and>
    \<not> (\<exists>t. totalTimeout options = Some t \<and>
         less_than (Finite (t - (Date_now rt w2 - st))) nd) \<and>
    (if signal_aborted (signal options) w2 then w3 = w2
     else List.find (\<lambda>(k, w'). listening (signal options \<noteq> None) k) (setTimeout rt nd w2)
            = Some (AbortFires, w3))"
  then have "before_next rt options st nd w2 = (Rejected new_AbortError, [Slept nd], w3)"
    by (intro before_next_abort) blast+
  with h have "iteration rt fn options st att w
      = (Done (Rejected new_AbortError), tr @ Failed att error # tr2 @ [Slept nd], w3)"
    by (simp add: iteration_def)
  then show "retry_loop rt fn options st le att w
        = (Rejected new_AbortError, tr @ Failed att error # tr2 @ [Slept nd], w3)"
    using retry_loop_done [of att options rt fn st w "Rejected new_AbortError" le] h by simp
next
  fix n e
  assume h: "Failed n e \<in> set (calls (retry rt fn options w)) \<and> instanceof_AbortError e"
  then have m: "Failed n e \<in> set (calls (retry rt fn options w))" by simp
  from retry_call [OF m]
  have r: "retry rt fn options w = retry_loop rt fn options (Date_now rt w) None 1 (tick rt w)" by simp
  with h have "Failed n e \<in> set (calls (retry_loop rt fn options (Date_now rt w) None 1 (tick rt w)))"
    by simp
  from retry_loop_terminal_failure [OF this] h r
  show "outcome (retry rt fn options w) = Rejected e" by simp
next
  fix e c
  assume h: "RetryIfCalled e c \<in> set (calls (retry rt fn options w))"
  from retry_call [OF h]
  have r: "retry rt fn options w = retry_loop rt fn options (Date_now rt w) None 1 (tick rt w)" by simp
  with h have "RetryIfCalled e c \<in> set (calls (retry_loop rt fn options (Date_now rt w) None 1 (tick rt w)))"
    by simp
  from retry_loop_call [OF this] obtain att' w' where
    "RetryIfCalled e c \<in> set (calls (iteration rt fn options (Date_now rt w) att' w'))" by blast
  from iteration_call [OF this] obtain error w1 where
    "RetryIfCalled e c \<in> set (calls (on_error rt options (Date_now rt w) att' error w1))"
    by auto
  from on_error_calls [OF this] show "\<not> instanceof_AbortError e" by auto
qed

text \<open>
  C2 as stated fails at the head of an iteration. The first attempt fails at time 50, the
  sleep of 50 ms ends at time 100, where the signal is aborted and the total timeout of
  100 ms is reached: the second iteration throws the \<^verbatim>\<open>TimeoutError\<close>, not the
  \<^verbatim>\<open>AbortError\<close>.
\<close>

theorem C2_counterexample:
  "iteration rt0 (failing 50) deadline_options 0 1 0
     = (Next (Thrown ''boom''), [Invoked 1, Failed 1 (Thrown ''boom''), Slept (Finite 50)], 100) \<and>
   signal_aborted (signal deadline_options) 100 \<and>
   iteration rt0 (failing 50) deadline_options 0 2 100
     = (Done (Rejected (TimeoutError (TotalTimeoutExceeded 100))), [], 100) \<and>
   retry rt0 (failing 50) deadline_options 0
     = (Rejected (TimeoutError (TotalTimeoutExceeded 100)),
        [Invoked 1, Failed 1 (Thrown ''boom''), Slept (Finite 50)], 100)"
  by (simp add: retry_defs example_defs deadline_options_def abort_at_100_def retry_loop.simps
      rt0_delays)

lemma calculateDelay_cong:
  "Math_pow rt' = Math_pow rt \<Longrightarrow> Math_random rt' = Math_random rt \<Longrightarrow>
   calculateDelay rt' = calculateDelay rt"
  by (intro ext) (simp add: calculateDelay_def Let_def)

lemma rt1_fields:
  "Date_now rt1 = real" "tick rt1 = (\<lambda>w. w)"
  "setTimeout rt1 = (\<lambda>ms w. if w < 100 \<and> 100 < w + milliseconds ms
                             then [(AbortFires, 100), (TimerFires, w + milliseconds ms)]
                             else [(TimerFires, w + milliseconds ms)])"
  "calculateDelay rt1 = calculateDelay rt0"
  by (simp_all add: rt1_def rt0_def calculateDelay_cong)

text \<open>
  The cases of the theorem on runs: a signal aborted before the call; the head of the
  second iteration at time 100, with and without a total timeout; an abort at time 100
  during an attempt started at time 90 under a timeout of 20 ms, and during a sleep.
\<close>

theorem C2_abort_is_terminal_witness:
  "retry rt0 (failing 5) (no_options\<lparr>signal := Some aborted_signal\<rparr>) 0
     = (Rejected new_AbortError, [], 0) \<and>
   retry_loop rt0 (failing 50) deadline_options 0 None 2 100
     = (Rejected (TimeoutError (TotalTimeoutExceeded 100)), [], 100) \<and>
   retry_loop rt0 (failing 50) (deadline_options\<lparr>totalTimeout := None\<rparr>) 0 None 2 100
     = (Rejected new_AbortError, [], 100) \<and>
   retry_loop rt1 slow abortable_options 0 None 1 90
     = (Rejected new_AbortError, [Invoked 1, Failed 1 new_AbortError], 100) \<and>
   retry_loop rt1 (failing 10) abortable_options 0 None 1 0
     = (Rejected new_AbortError,
        [Invoked 1, Failed 1 (Thrown ''boom''), Slept (Finite 100)], 100) \<and>
   outcome (retry rt1 slow abortable_options 90) = Rejected new_AbortError \<and>
   RetryIfCalled (Thrown ''boom'')
       \<lparr>attempt = 1, retriesLeft = 3, elapsed = 5, nextDelay = Finite 10\<rparr>
     \<in> set (calls (retry rt0 (failing 5) picky_options 0)) \<and>
   \<not> instanceof_AbortError (Thrown ''boom'' :: string thrown)"
proof -
  have a: "retry rt0 (failing 5) (no_options\<lparr>signal := Some aborted_signal\<rparr>) 0
     = (Rejected new_AbortError, [], 0)"
  proof -
    have "validate (no_options\<lparr>signal := Some aborted_signal\<rparr>) = None \<and>
          signal_aborted (signal (no_options\<lparr>signal := Some aborted_signal\<rparr>)) (0::nat)"
      by (simp add: retry_defs example_defs aborted_signal_def)
    then show ?thesis
      using C2_abort_is_terminal [where options = "no_options\<lparr>signal := Some aborted_signal\<rparr>"
          and w = 0 and rt = rt0 and fn = "failing 5", THEN conjunct1]
      by blast
  qed
  have b: "retry_loop rt0 (failing 50) deadline_options 0 None 2 100
     = (Rejected (TimeoutError (TotalTimeoutExceeded 100)), [], 100)"
  proof -
    have "real 2 \<le> the_retries deadline_options + 1 \<and>
          signal_aborted (signal deadline_options) (100::nat)"
      by (simp add: retry_defs example_defs abort_at_100_def deadline_options_def)
    moreover have "\<exists>t. totalTimeout deadline_options = Some t \<and> t \<le> Date_now rt0 100 - 0"
      by (simp add: example_defs abort_at_100_def deadline_options_def)
    moreover have "the (totalTimeout deadline_options) = 100"
      by (simp add: example_defs abort_at_100_def deadline_options_def)
    ultimately show ?thesis
      using C2_abort_is_terminal [where options = deadline_options and w = 100 and rt = rt0
          and fn = "failing 50" and att = 2 and st = 0 and le = None,
          THEN conjunct2, THEN conjunct1]
      by simp
  qed
  have c: "retry_loop rt0 (failing 50) (deadline_options\<lparr>totalTimeout := None\<rparr>) 0 None 2 100
     = (Rejected new_AbortError, [], 100)"
  proof -
    have "real 2 \<le> the_retries (deadline_options\<lparr>totalTimeout := None\<rparr>) + 1 \<and>
          signal_aborted (signal (deadline_options\<lparr>totalTimeout := None\<rparr>)) (100::nat)"
      by (simp add: retry_defs example_defs abort_at_100_def deadline_options_def)
    moreover have "\<not> (\<exists>t. totalTimeout (deadline_options\<lparr>totalTimeout := None\<rparr>) = Some t
        \<and> t \<le> Date_now rt0 100 - 0)"
      by simp
    ultimately show ?thesis
      using C2_abort_is_terminal [where options = "deadline_options\<lparr>totalTimeout := None\<rparr>"
          and w = 100 and rt = rt0 and fn = "failing 50" and att = 2 and st = 0 and le = None,
          THEN conjunct2, THEN conjunct1]
      by simp
  qed
  have d: "retry_loop rt1 slow abortable_options 0 None 1 90
     = (Rejected new_AbortError, [Invoked 1, Failed 1 new_AbortError], 100)"
  proof -
    have "real 1 \<le> the_retries abortable_options + 1 \<and>
          before_attempt rt1 abortable_options 0 90 = None \<and>
          attemptTimeout abortable_options = Some 20 \<and>
          List.find (\<lambda>(k, w'). listening (signal abortable_options \<noteq> None) k)
            (setTimeout rt1 (Finite 20) 90) = Some (AbortFires, 100) \<and>
          (slow 1 90 = None \<or>
           (\<exists>r ws. slow 1 90 = Some (r, ws) \<and> Date_now rt1 100 < Date_now rt1 ws))"
      by (simp add: retry_defs no_options_def rt1_fields abortable_options_def
          abort_at_100_def slow_def)
    from mp [OF C2_abort_is_terminal [where options = abortable_options and w = 90 and rt = rt1
          and fn = slow and att = 1 and st = 0 and le = None and t = 20 and ?w1.0 = 100,
          THEN conjunct2, THEN conjunct2, THEN conjunct1] this]
    show ?thesis .
  qed
  have e: "retry_loop rt1 (failing 10) abortable_options 0 None 1 0
     = (Rejected new_AbortError,
        [Invoked 1, Failed 1 (Thrown ''boom''), Slept (Finite 100)], 100)"
  proof -
    have "real 1 \<le> the_retries abortable_options + 1 \<and>
          before_attempt rt1 abortable_options 0 0 = None \<and>
          run_attempt rt1 (failing 10) abortable_options 1 0
            = (Rejected (Thrown ''boom''), [Invoked 1], 10) \<and>
          on_error rt1 abortable_options 0 1 (Thrown ''boom'') 10
            = (Fulfilled (Finite 100), [], 10) \<and>
          \<not> (\<exists>t. totalTimeout abortable_options = Some t \<and>
               less_than (Finite (t - (Date_now rt1 10 - 0))) (Finite 100)) \<and>
          (if signal_aborted (signal abortable_options) 10 then (100::nat) = 10
           else List.find (\<lambda>(k, w'). listening (signal abortable_options \<noteq> None) k)
                  (setTimeout rt1 (Finite 100) 10) = Some (AbortFires, 100))"
      by (simp add: retry_defs no_options_def failing_def rt1_fields rt0_delays
          abortable_options_def abort_at_100_def)
    from mp [OF C2_abort_is_terminal [where options = abortable_options and w = 0 and rt = rt1
          and fn = "failing 10" and att = 1 and st = 0 and le = None and error = "Thrown ''boom''"
          and tr = "[Invoked 1]" and ?w1.0 = 10 and nd = "Finite 100" and ?tr2.0 = "[]"
          and ?w2.0 = 10 and ?w3.0 = 100,
          THEN conjunct2, THEN conjunct2, THEN conjunct2, THEN conjunct1] this]
    show ?thesis by simp
  qed
  have f: "outcome (retry rt1 slow abortable_options 90) = Rejected new_AbortError"
  proof -
    have "Failed 1 new_AbortError \<in> set (calls (retry rt1 slow abortable_options 90))"
      by (simp add: retry_defs no_options_def rt1_fields abortable_options_def
          abort_at_100_def slow_def retry_loop.simps)
    then show ?thesis
      using C2_abort_is_terminal [where options = abortable_options and w = 90 and rt = rt1
          and fn = slow,
          THEN conjunct2, THEN conjunct2, THEN conjunct2, THEN conjunct2, THEN conjunct1]
      by (simp add: new_AbortError_def)
  qed
  have g: "RetryIfCalled (Thrown ''boom'')
             \<lparr>attempt = 1, retriesLeft = 3, elapsed = 5, nextDelay = Finite 10\<rparr>
           \<in> set (calls (retry rt0 (failing 5) picky_options 0))"
    by (simp add: retry_defs example_defs picky_options_def refuse_def observe_def
        retry_loop.simps rt0_delays)
  have h: "\<not> instanceof_AbortError (Thrown ''boom'' :: string thrown)"
    using C2_abort_is_terminal [where options = picky_options and w = 0 and rt = rt0
          and fn = "failing 5",
          THEN conjunct2, THEN conjunct2, THEN conjunct2, THEN conjunct2, THEN conjunct2] g
    by blast
  from a b c d e f g h show ?thesis by simp
qed

subsection \<open>The catch block\<close>

lemma run_attempt_invoked:
  assumes "before_attempt rt options st w = None"
    and "run_attempt rt fn options att w = (p, tr, w1)"
  shows "tr = [Invoked att]"
proof -
  have "\<not> signal_aborted (signal options) w"
    using assms(1) by (simp add: before_attempt_None)
  then show ?thesis using run_attempt_calls [of rt fn options att w] assms(2) by simp
qed

lemma on_error_unfold:
  assumes "\<not> instanceof_AbortError error"
    and "real att < the_retries options + 1"
    and "calculateDelay rt (int att) (the_minTimeout options) (the_maxTimeout options)
           (the_factor options) (the_jitter options) w = (nd, w1)"
  shows "on_error rt options st att error w =
     (case call_retryIf (retryIf options) error (the_context rt options st att w) w1 of
        (Rejected e, tr1, w2) \<Rightarrow> (Rejected e, tr1, w2)
      | (Pending, tr1, w2) \<Rightarrow> (Pending, tr1, w2)
      | (Fulfilled u, tr1, w2) \<Rightarrow>
          (case call_onRetry (onRetry options) error (the_context rt options st att w) w2 of
             (Rejected e, tr2, w3) \<Rightarrow> (Rejected e, tr1 @ tr2, w3)
           | (Pending, tr2, w3) \<Rightarrow> (Pending, tr1 @ tr2, w3)
           | (Fulfilled u', tr2, w3) \<Rightarrow> (Fulfilled nd, tr1 @ tr2, w3)))"
proof -
  have c: "the_context rt options st att w
             = \<lparr>attempt = att, retriesLeft = the_retries options + 1 - real att,
                 elapsed = Date_now rt w1 - st, nextDelay = nd\<rparr>"
    using assms(3) by (simp add: the_context_def)
  show ?thesis unfolding c using assms by (simp add: on_error_def Let_def)
qed

lemma the_context_fields [simp]:
  "attempt (the_context rt options st att w) = att"
  "retriesLeft (the_context rt options st att w) = the_retries options + 1 - real att"
  by (simp_all add: the_context_def split: prod.splits)







subsection \<open>The timeout of an attempt\<close>




subsection \<open>The callbacks\<close>

text \<open>
  C7. At an attempt with retries remaining, when the operation fails with an error (not
  an \<^verbatim>\<open>AbortError\<close>, which is never shown to the predicate) and \<^verbatim>\<open>retryIf\<close> returns
  false for it, the call ends with exactly that error: after the invocation and the call
  of \<^verbatim>\<open>retryIf\<close> there is no call of \<^verbatim>\<open>onRetry\<close>, no sleep and no further attempt.
\<close>

theorem C7_retryIf_false:
  assumes "real att < the_retries options + 1"
    and "before_attempt rt options st w = None"
    and "run_attempt rt fn options att w = (Rejected error, tr, w1)"
    and "\<not> instanceof_AbortError error"
    and "calculateDelay rt (int att) (the_minTimeout options) (the_maxTimeout options)
           (the_factor options) (the_jitter options) w1 = (nd, w1')"
    and "retryIf options = Some p"
    and "p error (the_context rt options st att w1) w1' = Some (Inr False, w2)"
  shows "retry_loop rt fn options st le att w
           = (Rejected error,
              [Invoked att, Failed att error,
               RetryIfCalled error (the_context rt options st att w1)], w2)"
proof -
  let ?ctx = "the_context rt options st att w1"
  have tr: "tr = [Invoked att]" using assms(2,3) by (rule run_attempt_invoked)
  have "call_retryIf (retryIf options) error ?ctx w1'
          = (Rejected error, [RetryIfCalled error ?ctx], w2)"
    using assms(6,7) by (simp add: call_retryIf_def)
  then have "on_error rt options st att error w1 = (Rejected error, [RetryIfCalled error ?ctx], w2)"
    using on_error_unfold [OF assms(4) assms(1) assms(5), of st] by simp
  then have "iteration rt fn options st att w
      = (Done (Rejected error), [Invoked att, Failed att error, RetryIfCalled error ?ctx], w2)"
    using assms(2,3) tr by (simp add: iteration_def)
  then show ?thesis
    using retry_loop_done [of att options rt fn st w "Rejected error" le] assms(1) by simp
qed

text \<open>A predicate that refuses: one attempt, and the error of the operation.\<close>

theorem C7_retryIf_false_witness:
  "retry_loop rt0 (failing 5) picky_options 0 None 1 0
     = (Rejected (Thrown ''boom''),
        [Invoked 1, Failed 1 (Thrown ''boom''),
         RetryIfCalled (Thrown ''boom'')
           \<lparr>attempt = 1, retriesLeft = 3, elapsed = 5, nextDelay = Finite 10\<rparr>], 5) \<and>
   retry rt0 (failing 5) picky_options 0
     = retry_loop rt0 (failing 5) picky_options 0 None 1 0"
proof -
  have c: "the_context rt0 picky_options 0 1 5
             = \<lparr>attempt = 1, retriesLeft = 3, elapsed = 5, nextDelay = Finite 10\<rparr>"
    by (simp add: the_context_def retry_defs example_defs refuse_def picky_options_def
        observe_def rt0_delays)
  have "retry_loop rt0 (failing 5) picky_options 0 None 1 0
           = (Rejected (Thrown ''boom''),
              [Invoked 1, Failed 1 (Thrown ''boom''),
               RetryIfCalled (Thrown ''boom'') (the_context rt0 picky_options 0 1 5)], 5)"
  proof (rule C7_retryIf_false [where nd = "Finite 10" and tr = "[Invoked 1]" and p = refuse])
    show "real 1 < the_retries picky_options + 1"
      by (simp add: retry_defs example_defs refuse_def picky_options_def observe_def rt0_delays)
    show "before_attempt rt0 picky_options 0 0 = None"
      by (simp add: retry_defs example_defs refuse_def picky_options_def observe_def rt0_delays)
    show "run_attempt rt0 (failing 5) picky_options 1 0 = (Rejected (Thrown ''boom''), [Invoked 1], 5)"
      by (simp add: retry_defs example_defs refuse_def picky_options_def observe_def rt0_delays)
    show "\<not> instanceof_AbortError (Thrown ''boom'')" by simp
    show "calculateDelay rt0 (int 1) (the_minTimeout picky_options) (the_maxTimeout picky_options)
           (the_factor picky_options) (the_jitter picky_options) 5 = (Finite 10, 5)"
      by (simp add: retry_defs example_defs refuse_def picky_options_def observe_def rt0_delays)
    show "retryIf picky_options = Some refuse"
      by (simp add: example_defs refuse_def picky_options_def observe_def)
    show "refuse (Thrown ''boom'') (the_context rt0 picky_options 0 1 5) 5 = Some (Inr False, 5)"
      by (simp add: refuse_def)
  qed
  moreover have "retry rt0 (failing 5) picky_options 0
     = retry_loop rt0 (failing 5) picky_options 0 None 1 0"
    by (simp add: retry_def validate_def the_retries_def the_minTimeout_def the_maxTimeout_def
        the_factor_def Number_isInteger_def signal_aborted_def example_defs refuse_def
        picky_options_def observe_def)
  ultimately show ?thesis using c by simp
qed

text \<open>
  C10. At an attempt with retries remaining that failed with \<open>error\<close>: when
  \<^verbatim>\<open>retryIf\<close> throws \<open>e'\<close>, or when \<^verbatim>\<open>retryIf\<close> lets the retry go on and
  \<^verbatim>\<open>onRetry\<close> throws \<open>e'\<close>, the call ends at once with \<open>e'\<close> in place of
  \<open>error\<close>: \<open>e'\<close> is not shown to \<^verbatim>\<open>retryIf\<close>, and no sleep and no attempt follows.
\<close>

theorem C10_callback_throws:
  assumes "real att < the_retries options + 1"
    and "before_attempt rt options st w = None"
    and "run_attempt rt fn options att w = (Rejected error, tr, w1)"
    and "\<not> instanceof_AbortError error"
    and "calculateDelay rt (int att) (the_minTimeout options) (the_maxTimeout options)
           (the_factor options) (the_jitter options) w1 = (nd, w1')"
  shows "(retryIf options = Some p \<and>
          p error (the_context rt options st att w1) w1' = Some (Inl e', w2) \<longrightarrow>
            retry_loop rt fn options st le att w
              = (Rejected e',
                 [Invoked att, Failed att error,
                  RetryIfCalled error (the_context rt options st att w1)], w2)) \<and>
         (call_retryIf (retryIf options) error (the_context rt options st att w1) w1'
            = (Fulfilled (), tr1, w2) \<and>
          onRetry options = Some q \<and>
          q error (the_context rt options st att w1) w2 = Some (Inl e', w3) \<longrightarrow>
            retry_loop rt fn options st le att w
              = (Rejected e',
                 [Invoked att, Failed att error] @ tr1 @
                 [OnRetryCalled error (the_context rt options st att w1)], w3))"
proof (intro conjI impI)
  let ?ctx = "the_context rt options st att w1"
  have tr: "tr = [Invoked att]" using assms(2,3) by (rule run_attempt_invoked)
  note oe = on_error_unfold [OF assms(4) assms(1) assms(5), of st]
  {
    assume h: "retryIf options = Some p \<and> p error ?ctx w1' = Some (Inl e', w2)"
    then have "call_retryIf (retryIf options) error ?ctx w1'
          = (Rejected e', [RetryIfCalled error ?ctx], w2)"
      by (simp add: call_retryIf_def)
    then have "on_error rt options st att error w1 = (Rejected e', [RetryIfCalled error ?ctx], w2)"
      using oe by simp
    then have "iteration rt fn options st att w
        = (Done (Rejected e'), [Invoked att, Failed att error, RetryIfCalled error ?ctx], w2)"
      using assms(2,3) tr by (simp add: iteration_def)
    then show "retry_loop rt fn options st le att w
              = (Rejected e', [Invoked att, Failed att error, RetryIfCalled error ?ctx], w2)"
      using retry_loop_done [of att options rt fn st w "Rejected e'" le] assms(1) by simp
  }
  {
    assume h: "call_retryIf (retryIf options) error ?ctx w1' = (Fulfilled (), tr1, w2) \<and>
          onRetry options = Some q \<and> q error ?ctx w2 = Some (Inl e', w3)"
    then have "call_onRetry (onRetry options) error ?ctx w2
          = (Rejected e', [OnRetryCalled error ?ctx], w3)"
      by (simp add: call_onRetry_def)
    with h have "on_error rt options st att error w1
          = (Rejected e', tr1 @ [OnRetryCalled error ?ctx], w3)"
      using oe by simp
    then have "iteration rt fn options st att w
        = (Done (Rejected e'),
           [Invoked att, Failed att error] @ tr1 @ [OnRetryCalled error ?ctx], w3)"
      using assms(2,3) tr by (simp add: iteration_def)
    then show "retry_loop rt fn options st le att w
              = (Rejected e',
                 [Invoked att, Failed att error] @ tr1 @ [OnRetryCalled error ?ctx], w3)"
      using retry_loop_done [of att options rt fn st w "Rejected e'" le] assms(1) by simp
  }
qed

text \<open>A predicate that throws, and an observer that throws.\<close>

theorem C10_callback_throws_witness:
  "retry_loop rt0 (failing 5) broken_predicate_options 0 None 1 0
     = (Rejected (Thrown ''callback''),
        [Invoked 1, Failed 1 (Thrown ''boom''),
         RetryIfCalled (Thrown ''boom'')
           \<lparr>attempt = 1, retriesLeft = 3, elapsed = 5, nextDelay = Finite 10\<rparr>], 5) \<and>
   retry_loop rt0 (failing 5) broken_observer_options 0 None 1 0
     = (Rejected (Thrown ''callback''),
        [Invoked 1, Failed 1 (Thrown ''boom''),
         OnRetryCalled (Thrown ''boom'')
           \<lparr>attempt = 1, retriesLeft = 3, elapsed = 5, nextDelay = Finite 10\<rparr>], 5)"
proof -
  let ?c = "\<lparr>attempt = 1, retriesLeft = 3, elapsed = 5, nextDelay = Finite 10\<rparr>"
  have c1: "the_context rt0 broken_predicate_options 0 1 5 = ?c"
    by (simp add: the_context_def retry_defs example_defs throwing_def
        broken_observer_options_def broken_predicate_options_def observe_def rt0_delays)
  have c2: "the_context rt0 broken_observer_options 0 1 5 = ?c"
    by (simp add: the_context_def retry_defs example_defs throwing_def
        broken_observer_options_def broken_predicate_options_def observe_def rt0_delays)
  have p: "retryIf broken_predicate_options = Some throwing \<and>
           throwing (Thrown ''boom'') (the_context rt0 broken_predicate_options 0 1 5) 5
             = Some (Inl (Thrown ''callback''), 5)"
    by (simp add: example_defs throwing_def broken_observer_options_def
        broken_predicate_options_def observe_def)
  have q: "call_retryIf (retryIf broken_observer_options) (Thrown ''boom'')
             (the_context rt0 broken_observer_options 0 1 5) 5 = (Fulfilled (), [], 5) \<and>
           onRetry broken_observer_options = Some throwing \<and>
           throwing (Thrown ''boom'') (the_context rt0 broken_observer_options 0 1 5) 5
             = Some (Inl (Thrown ''callback''), 5)"
    by (simp add: call_retryIf_def example_defs throwing_def broken_observer_options_def
        broken_predicate_options_def observe_def)
  have a: "retry_loop rt0 (failing 5) broken_predicate_options 0 None 1 0
     = (Rejected (Thrown ''callback''),
        [Invoked 1, Failed 1 (Thrown ''boom''),
         RetryIfCalled (Thrown ''boom'') (the_context rt0 broken_predicate_options 0 1 5)], 5)"
  proof (rule mp [OF conjunct1 [OF C10_callback_throws [where nd = "Finite 10" and tr = "[Invoked 1]"
            and p = throwing and w1' = 5]] p])
    show "real 1 < the_retries broken_predicate_options + 1"
      by (simp add: retry_defs example_defs throwing_def broken_observer_options_def
          broken_predicate_options_def observe_def rt0_delays)
    show "before_attempt rt0 broken_predicate_options 0 0 = None"
      by (simp add: retry_defs example_defs throwing_def broken_observer_options_def
          broken_predicate_options_def observe_def rt0_delays)
    show "run_attempt rt0 (failing 5) broken_predicate_options 1 0
            = (Rejected (Thrown ''boom''), [Invoked 1], 5)"
      by (simp add: retry_defs example_defs throwing_def broken_observer_options_def
          broken_predicate_options_def observe_def rt0_delays)
    show "\<not> instanceof_AbortError (Thrown ''boom'')" by simp
    show "calculateDelay rt0 (int 1) (the_minTimeout broken_predicate_options)
           (the_maxTimeout broken_predicate_options) (the_factor broken_predicate_options)
           (the_jitter broken_predicate_options) 5 = (Finite 10, 5)"
      by (simp add: retry_defs example_defs throwing_def broken_observer_options_def
          broken_predicate_options_def observe_def rt0_delays)
  qed
  have b: "retry_loop rt0 (failing 5) broken_observer_options 0 None 1 0
     = (Rejected (Thrown ''callback''),
        [Invoked 1, Failed 1 (Thrown ''boom'')] @ [] @
        [OnRetryCalled (Thrown ''boom'') (the_context rt0 broken_observer_options 0 1 5)], 5)"
  proof (rule mp [OF conjunct2 [OF C10_callback_throws [where nd = "Finite 10" and tr = "[Invoked 1]"
            and q = throwing and w1' = 5 and ?w2.0 = 5]] q])
    show "real 1 < the_retries broken_observer_options + 1"
      by (simp add: retry_defs example_defs throwing_def broken_observer_options_def
          broken_predicate_options_def observe_def rt0_delays)
    show "before_attempt rt0 broken_observer_options 0 0 = None"
      by (simp add: retry_defs example_defs throwing_def broken_observer_options_def
          broken_predicate_options_def observe_def rt0_delays)
    show "run_attempt rt0 (failing 5) broken_observer_options 1 0
            = (Rejected (Thrown ''boom''), [Invoked 1], 5)"
      by (simp add: retry_defs example_defs throwing_def broken_observer_options_def
          broken_predicate_options_def observe_def rt0_delays)
    show "\<not> instanceof_AbortError (Thrown ''boom'')" by simp
    show "calculateDelay rt0 (int 1) (the_minTimeout broken_observer_options)
           (the_maxTimeout broken_observer_options) (the_factor broken_observer_options)
           (the_jitter broken_observer_options) 5 = (Finite 10, 5)"
      by (simp add: retry_defs example_defs throwing_def broken_observer_options_def
          broken_predicate_options_def observe_def rt0_delays)
  qed
  from a b c1 c2 show ?thesis by simp
qed

subsection \<open>The wrapper\<close>

text \<open>
  C9. The function that \<^verbatim>\<open>retryable(fn, options)\<close> returns, called with \<open>args\<close>,
  is \<^verbatim>\<open>retry(() => fn(...args), options)\<close>: the same result, the same calls, so the
  same number of invocations, each of \<open>fn\<close> with \<open>args\<close>, and the same final world.
\<close>

theorem C9_retryable:
  "retryable rt fn options args w = retry rt (\<lambda>att. fn args) options w \<and>
   outcome (retryable rt fn options args w) = outcome (retry rt (\<lambda>att. fn args) options w) \<and>
   invocations (calls (retryable rt fn options args w))
     = invocations (calls (retry rt (\<lambda>att. fn args) options w))"
  by (simp add: retryable_def)

subsection \<open>How often the observer is called\<close>

lemma not_last_attempt:
  assumes "r \<in> \<int>" and "real att \<le> r + 1" and "r + 1 - real att \<noteq> 0"
  shows "real att \<le> r"
proof -
  from assms(1) obtain k :: int where k: "r = of_int k" by (auto elim: Ints_cases)
  have "int att \<le> k + 1" using assms(2) unfolding k by linarith
  moreover have "int att \<noteq> k + 1" using assms(3) unfolding k by auto
  ultimately have "int att \<le> k" by simp
  then show ?thesis unfolding k by linarith
qed

lemma on_error_onRetryCalls:
  "onRetryCalls (calls (on_error rt options st att error w)) \<le> 1"
  "onRetryCalls (calls (on_error rt options st att error w)) = 1 \<Longrightarrow>
     \<not> instanceof_AbortError error \<and> the_retries options + 1 - real att \<noteq> 0"
proof -
  obtain nd w1 where cd: "calculateDelay rt (int att) (the_minTimeout options)
      (the_maxTimeout options) (the_factor options) (the_jitter options) w = (nd, w1)"
    by (cases "calculateDelay rt (int att) (the_minTimeout options)
      (the_maxTimeout options) (the_factor options) (the_jitter options) w") auto
  let ?ctx = "\<lparr>attempt = att, retriesLeft = the_retries options + 1 - real att,
                 elapsed = Date_now rt w1 - st, nextDelay = nd\<rparr>"
  obtain p1 tr1 w2 where r1: "call_retryIf (retryIf options) error ?ctx w1 = (p1, tr1, w2)"
    by (cases "call_retryIf (retryIf options) error ?ctx w1") auto
  obtain p2 tr2 w3 where r2: "call_onRetry (onRetry options) error ?ctx w2 = (p2, tr2, w3)"
    by (cases "call_onRetry (onRetry options) error ?ctx w2") auto
  have t1: "tr1 = (if retryIf options = None then [] else [RetryIfCalled error ?ctx])"
    using call_retryIf_calls [of "retryIf options" error ?ctx w1] r1 by simp
  have t2: "tr2 = (if onRetry options = None then [] else [OnRetryCalled error ?ctx])"
    using call_onRetry_calls [of "onRetry options" error ?ctx w2] r2 by simp
  show "onRetryCalls (calls (on_error rt options st att error w)) \<le> 1"
    using cd r1 r2 t1 t2
    by (auto simp: on_error_def Let_def split: if_splits promise.splits)
  show "onRetryCalls (calls (on_error rt options st att error w)) = 1 \<Longrightarrow>
     \<not> instanceof_AbortError error \<and> the_retries options + 1 - real att \<noteq> 0"
    by (auto simp: on_error_def Let_def split: if_splits)
qed

lemma iteration_failedAttempts:
  "failedAttempts (calls (iteration rt fn options st att w))
     = (if before_attempt rt options st w = None \<and>
           (\<exists>error. outcome (run_attempt rt fn options att w) = Rejected error) then 1 else 0)"
proof (cases rule: iteration_cases [of rt options st w fn att])
  case (stopped e)
  then show ?thesis by simp
next
  case (fulfilled v tr w1)
  then show ?thesis using run_attempt_counts(2) [of rt fn options att w] by simp
next
  case (pending tr w1)
  then show ?thesis using run_attempt_counts(2) [of rt fn options att w] by simp
next
  case (thrown error tr w1 e tr2 w2)
  then show ?thesis
    using run_attempt_counts(2) [of rt fn options att w]
      on_error_no_attempt(2) [of rt options st att error w1] by simp
next
  case (stuck error tr w1 tr2 w2)
  then show ?thesis
    using run_attempt_counts(2) [of rt fn options att w]
      on_error_no_attempt(2) [of rt options st att error w1] by simp
next
  case (cut error tr w1 nd tr2 w2 e tr3 w3)
  then show ?thesis
    using run_attempt_counts(2) [of rt fn options att w]
      on_error_no_attempt(2) [of rt options st att error w1]
      before_next_no_attempt(2) [of rt options st nd w2] by simp
next
  case (asleep error tr w1 nd tr2 w2 tr3 w3)
  then show ?thesis
    using run_attempt_counts(2) [of rt fn options att w]
      on_error_no_attempt(2) [of rt options st att error w1]
      before_next_no_attempt(2) [of rt options st nd w2] by simp
next
  case (continue error tr w1 nd tr2 w2 tr3 w3)
  then show ?thesis
    using run_attempt_counts(2) [of rt fn options att w]
      on_error_no_attempt(2) [of rt options st att error w1]
      before_next_no_attempt(2) [of rt options st nd w2] by simp
qed

lemma iteration_onRetryCalls:
  "onRetryCalls (calls (iteration rt fn options st att w))
     = (if before_attempt rt options st w = None then
          (case outcome (run_attempt rt fn options att w) of
             Rejected error \<Rightarrow>
               onRetryCalls (calls (on_error rt options st att error
                                      (world (run_attempt rt fn options att w))))
           | _ \<Rightarrow> 0)
        else 0)"
proof (cases rule: iteration_cases [of rt options st w fn att])
  case (stopped e)
  then show ?thesis by simp
next
  case (fulfilled v tr w1)
  then show ?thesis using run_attempt_counts(3) [of rt fn options att w] by simp
next
  case (pending tr w1)
  then show ?thesis using run_attempt_counts(3) [of rt fn options att w] by simp
next
  case (thrown error tr w1 e tr2 w2)
  then show ?thesis
    using run_attempt_counts(3) [of rt fn options att w] by simp
next
  case (stuck error tr w1 tr2 w2)
  then show ?thesis
    using run_attempt_counts(3) [of rt fn options att w] by simp
next
  case (cut error tr w1 nd tr2 w2 e tr3 w3)
  then show ?thesis
    using run_attempt_counts(3) [of rt fn options att w]
      before_next_no_attempt(3) [of rt options st nd w2] by simp
next
  case (asleep error tr w1 nd tr2 w2 tr3 w3)
  then show ?thesis
    using run_attempt_counts(3) [of rt fn options att w]
      before_next_no_attempt(3) [of rt options st nd w2] by simp
next
  case (continue error tr w1 nd tr2 w2 tr3 w3)
  then show ?thesis
    using run_attempt_counts(3) [of rt fn options att w]
      before_next_no_attempt(3) [of rt options st nd w2] by simp
qed

lemma iteration_Next:
  assumes "outcome (iteration rt fn options st att w) = Next e"
  shows "before_attempt rt options st w = None"
    and "outcome (run_attempt rt fn options att w) = Rejected e"
    and "\<not> instanceof_AbortError e"
    and "the_retries options + 1 - real att \<noteq> 0"
    and "Failed att e \<in> set (calls (iteration rt fn options st att w))"
proof -
  have "before_attempt rt options st w = None \<and>
        outcome (run_attempt rt fn options att w) = Rejected e \<and>
        \<not> instanceof_AbortError e \<and> the_retries options + 1 - real att \<noteq> 0 \<and>
        Failed att e \<in> set (calls (iteration rt fn options st att w))"
  proof (cases rule: iteration_cases [of rt options st w fn att])
    case (continue error tr w1 nd tr2 w2 tr3 w3)
    have "\<not> (instanceof_AbortError error \<or> the_retries options + 1 - real att = 0)"
    proof
      assume "instanceof_AbortError error \<or> the_retries options + 1 - real att = 0"
      from on_error_terminal [OF this, of rt st w1] continue(3) show False by simp
    qed
    with continue assms show ?thesis by simp
  qed (use assms in simp_all)
  then show "before_attempt rt options st w = None"
    and "outcome (run_attempt rt fn options att w) = Rejected e"
    and "\<not> instanceof_AbortError e"
    and "the_retries options + 1 - real att \<noteq> 0"
    and "Failed att e \<in> set (calls (iteration rt fn options st att w))"
    by simp_all
qed

lemma iteration_Failed_intro:
  assumes "before_attempt rt options st w = None"
    and "outcome (run_attempt rt fn options att w) = Rejected error"
  shows "Failed att error \<in> set (calls (iteration rt fn options st att w))"
  using assms by (cases rule: iteration_cases [of rt options st w fn att]) auto

lemma iteration_counts_le:
  "onRetryCalls (calls (iteration rt fn options st att w))
     \<le> failedAttempts (calls (iteration rt fn options st att w))"
  "onRetryCalls (calls (iteration rt fn options st att w)) \<le> 1"
  "onRetryCalls (calls (iteration rt fn options st att w)) = 1 \<Longrightarrow>
     the_retries options + 1 - real att \<noteq> 0"
proof -
  let ?ra = "run_attempt rt fn options att w"
  show "onRetryCalls (calls (iteration rt fn options st att w))
     \<le> failedAttempts (calls (iteration rt fn options st att w))"
    unfolding iteration_onRetryCalls iteration_failedAttempts
    using on_error_onRetryCalls(1) [of rt options st att _ "world ?ra"]
    by (auto split: promise.splits)
  show "onRetryCalls (calls (iteration rt fn options st att w)) \<le> 1"
    unfolding iteration_onRetryCalls
    using on_error_onRetryCalls(1) [of rt options st att _ "world ?ra"]
    by (auto split: promise.splits)
  show "onRetryCalls (calls (iteration rt fn options st att w)) = 1 \<Longrightarrow>
     the_retries options + 1 - real att \<noteq> 0"
    unfolding iteration_onRetryCalls
    using on_error_onRetryCalls(2) [of rt options st att _ "world ?ra"]
    by (auto split: promise.splits if_splits)
qed

lemma retry_loop_onRetry_le:
  assumes "the_retries options \<in> \<int>"
  shows "onRetryCalls (calls (retry_loop rt fn options st le att w))
           \<le> failedAttempts (calls (retry_loop rt fn options st le att w)) \<and>
         real (onRetryCalls (calls (retry_loop rt fn options st le att w)))
           \<le> max 0 (the_retries options + 1 - real att)"
proof (induction le att w rule: retry_loop_induct [of options _ rt fn st])
  case (exit le att w)
  then show ?case by (simp add: retry_loop_exit)
next
  case (stop le att w p)
  let ?it = "iteration rt fn options st att w"
  have c: "calls (retry_loop rt fn options st le att w) = calls ?it"
    using retry_loop_done [OF stop] by simp
  have "real (onRetryCalls (calls ?it)) \<le> max 0 (the_retries options + 1 - real att)"
  proof (cases "onRetryCalls (calls ?it) = 1")
    case True
    from iteration_counts_le(3) [OF True] have "real att \<le> the_retries options"
      using not_last_attempt [OF assms stop(1)] by simp
    with True show ?thesis by simp
  next
    case False
    with iteration_counts_le(2) [of rt fn options st att w]
    have "onRetryCalls (calls ?it) = 0" by simp
    then show ?thesis by simp
  qed
  with iteration_counts_le(1) [of rt fn options st att w] c show ?case by simp
next
  case (continue le att w e)
  let ?it = "iteration rt fn options st att w"
  let ?rest = "retry_loop rt fn options st (Some e) (Suc att) (world ?it)"
  have c: "calls (retry_loop rt fn options st le att w) = calls ?it @ calls ?rest"
    using retry_loop_next [OF continue(1,2)] by simp
  have n: "real att \<le> the_retries options"
    using not_last_attempt [OF assms continue(1) iteration_Next(4) [OF continue(2)]] .
  have "real (onRetryCalls (calls ?it)) \<le> 1"
    using iteration_counts_le(2) [of rt fn options st att w] by simp
  moreover have "real (onRetryCalls (calls ?rest)) \<le> the_retries options - real att"
    using continue(3) n by simp
  ultimately have "real (onRetryCalls (calls ?it @ calls ?rest))
      \<le> max 0 (the_retries options + 1 - real att)"
    by simp
  with continue(3) iteration_counts_le(1) [of rt fn options st att w] c show ?case by simp
qed

lemma onRetryCalls_pos: "OnRetryCalled e c \<in> set tr \<Longrightarrow> 1 \<le> onRetryCalls tr"
  by (induction tr) auto

lemma iteration_failed_one:
  assumes "failedAttempts (calls (iteration rt fn options st att w)) = 1"
  shows "\<exists>e. Failed att e \<in> set (calls (iteration rt fn options st att w))"
proof -
  from assms have "before_attempt rt options st w = None \<and>
      (\<exists>error. outcome (run_attempt rt fn options att w) = Rejected error)"
    unfolding iteration_failedAttempts by (simp split: if_splits)
  then obtain error where b: "before_attempt rt options st w = None"
    and e: "outcome (run_attempt rt fn options att w) = Rejected error" by blast
  from iteration_Failed_intro [OF b e] show ?thesis ..
qed

lemma iteration_OnRetryCalled:
  assumes "OnRetryCalled e c \<in> set (calls (iteration rt fn options st att w))"
  shows "attempt c = att \<and> \<not> instanceof_AbortError e \<and>
         the_retries options + 1 - real att \<noteq> 0 \<and>
         Failed att e \<in> set (calls (iteration rt fn options st att w))"
proof -
  from iteration_call [OF assms] obtain error tr w1 where
    b: "before_attempt rt options st w = None"
    and r: "run_attempt rt fn options att w = (Rejected error, tr, w1)"
    and o: "OnRetryCalled e c \<in> set (calls (on_error rt options st att error w1))"
    by auto
  from on_error_calls [OF o] have "c = the_context rt options st att w1" and "e = error"
    and "\<not> instanceof_AbortError error" and "the_retries options + 1 - real att \<noteq> 0"
    by auto
  moreover have "Failed att error \<in> set (calls (iteration rt fn options st att w))"
    using iteration_Failed_intro [OF b, of fn att error] r by simp
  ultimately show ?thesis by simp
qed

lemma retry_loop_call_sub:
  assumes "c \<in> set (calls (retry_loop rt fn options st le att w))"
  shows "\<exists>att' w'. att \<le> att' \<and> real att' \<le> the_retries options + 1 \<and>
           c \<in> set (calls (iteration rt fn options st att' w')) \<and>
           set (calls (iteration rt fn options st att' w'))
             \<subseteq> set (calls (retry_loop rt fn options st le att w))"
  using assms
proof (induction le att w rule: retry_loop_induct [of options _ rt fn st])
  case (exit le att w)
  then show ?case by (simp add: retry_loop_exit)
next
  case (stop le att w p)
  have "calls (retry_loop rt fn options st le att w) = calls (iteration rt fn options st att w)"
    using retry_loop_done [OF stop(1,2)] by simp
  with stop(1,3) show ?case by (intro exI [of _ att] exI [of _ w]) simp
next
  case (continue le att w e)
  let ?it = "iteration rt fn options st att w"
  let ?rest = "retry_loop rt fn options st (Some e) (Suc att) (world ?it)"
  have c: "calls (retry_loop rt fn options st le att w) = calls ?it @ calls ?rest"
    using retry_loop_next [OF continue(1,2)] by simp
  from continue(4) c have "c \<in> set (calls ?it) \<or> c \<in> set (calls ?rest)" by simp
  then show ?case
  proof
    assume "c \<in> set (calls ?it)"
    with continue(1) c show ?thesis by (intro exI [of _ att] exI [of _ w]) simp
  next
    assume "c \<in> set (calls ?rest)"
    from continue(3) [OF this] obtain att' w' where "Suc att \<le> att'"
      "real att' \<le> the_retries options + 1" "c \<in> set (calls (iteration rt fn options st att' w'))"
      "set (calls (iteration rt fn options st att' w')) \<subseteq> set (calls ?rest)"
      by blast
    with c show ?thesis by (intro exI [of _ att'] exI [of _ w']) auto
  qed
qed

lemma retry_loop_Failed_attempt:
  assumes "Failed n e \<in> set (calls (retry_loop rt fn options st le att w))"
  shows "att \<le> n"
proof -
  from retry_loop_call [OF assms] obtain att' w' where "att \<le> att'"
    and "Failed n e \<in> set (calls (iteration rt fn options st att' w'))" by blast
  with iteration_Failed [of n e rt fn options st att' w'] show ?thesis by simp
qed

lemma retry_loop_OnRetryCalled:
  assumes "OnRetryCalled e c \<in> set (calls (retry_loop rt fn options st le att w))"
  shows "att \<le> attempt c \<and> real (attempt c) \<le> the_retries options + 1 \<and>
         the_retries options + 1 - real (attempt c) \<noteq> 0 \<and> \<not> instanceof_AbortError e \<and>
         Failed (attempt c) e \<in> set (calls (retry_loop rt fn options st le att w))"
proof -
  from retry_loop_call_sub [OF assms] obtain att' w' where a: "att \<le> att'"
    and g: "real att' \<le> the_retries options + 1"
    and i: "OnRetryCalled e c \<in> set (calls (iteration rt fn options st att' w'))"
    and s: "set (calls (iteration rt fn options st att' w'))
              \<subseteq> set (calls (retry_loop rt fn options st le att w))" by blast
  from iteration_OnRetryCalled [OF i] a g s show ?thesis by auto
qed

lemma retry_loop_onRetry_eq:
  assumes "the_retries options \<in> \<int>"
  shows "(\<forall>n e. Failed n e \<in> set (calls (retry_loop rt fn options st le att w)) \<and>
                 real n \<le> the_retries options \<longrightarrow>
            (\<exists>c. OnRetryCalled e c \<in> set (calls (retry_loop rt fn options st le att w)) \<and>
                 attempt c = n)) \<Longrightarrow>
         real (onRetryCalls (calls (retry_loop rt fn options st le att w)))
           = min (real (failedAttempts (calls (retry_loop rt fn options st le att w))))
                 (max 0 (the_retries options + 1 - real att))"
proof (induction le att w rule: retry_loop_induct [of options _ rt fn st])
  case (exit le att w)
  then show ?case by (simp add: retry_loop_exit)
next
  case (stop le att w p)
  let ?it = "iteration rt fn options st att w"
  have c: "calls (retry_loop rt fn options st le att w) = calls ?it"
    using retry_loop_done [OF stop(1,2)] by simp
  have f: "failedAttempts (calls ?it) = 0 \<or> failedAttempts (calls ?it) = 1"
    by (simp add: iteration_failedAttempts)
  show ?case
  proof (cases "failedAttempts (calls ?it) = 1 \<and> the_retries options + 1 - real att \<noteq> 0")
    case True
    then have n: "real att \<le> the_retries options"
      using not_last_attempt [OF assms stop(1)] by simp
    from True have "failedAttempts (calls ?it) = 1" by simp
    from iteration_failed_one [OF this] obtain e where fe: "Failed att e \<in> set (calls ?it)" ..
    from stop(3) [rule_format, of att e] fe n c
    obtain c' where "OnRetryCalled e c' \<in> set (calls ?it)" by auto
    from onRetryCalls_pos [OF this] iteration_counts_le(2) [of rt fn options st att w]
    have "onRetryCalls (calls ?it) = 1" by simp
    with True n c show ?thesis by simp
  next
    case False
    have "onRetryCalls (calls ?it) = 0"
    proof (cases "failedAttempts (calls ?it) = 0")
      case True
      with iteration_counts_le(1) [of rt fn options st att w] show ?thesis by simp
    next
      case nz: False
      with False have "the_retries options + 1 - real att = 0" using f by auto
      with iteration_counts_le(2,3) [of rt fn options st att w] show ?thesis by fastforce
    qed
    moreover from False have "failedAttempts (calls ?it) = 0 \<or>
        the_retries options + 1 - real att = 0" using f by auto
    ultimately show ?thesis using c by auto
  qed
next
  case (continue le att w e)
  let ?it = "iteration rt fn options st att w"
  let ?rest = "retry_loop rt fn options st (Some e) (Suc att) (world ?it)"
  have c: "calls (retry_loop rt fn options st le att w) = calls ?it @ calls ?rest"
    using retry_loop_next [OF continue(1,2)] by simp
  have nl: "the_retries options + 1 - real att \<noteq> 0"
    using iteration_Next(4) [OF continue(2)] .
  have n: "real att \<le> the_retries options"
    using not_last_attempt [OF assms continue(1) nl] .
  have f: "failedAttempts (calls ?it) = 1"
    using iteration_Next(1,2) [OF continue(2)] by (simp add: iteration_failedAttempts)
  have fe: "Failed att e \<in> set (calls ?it)" using iteration_Next(5) [OF continue(2)] .
  have o: "onRetryCalls (calls ?it) = 1"
  proof -
    from continue(4) [rule_format, of att e] fe c n obtain c' where
      m: "OnRetryCalled e c' \<in> set (calls ?it) \<or> OnRetryCalled e c' \<in> set (calls ?rest)"
      and a: "attempt c' = att" by auto
    have "OnRetryCalled e c' \<notin> set (calls ?rest)"
    proof
      assume "OnRetryCalled e c' \<in> set (calls ?rest)"
      from retry_loop_OnRetryCalled [OF this] a show False by simp
    qed
    with m have "OnRetryCalled e c' \<in> set (calls ?it)" by simp
    from onRetryCalls_pos [OF this] iteration_counts_le(2) [of rt fn options st att w]
    show ?thesis by simp
  qed
  have h': "\<forall>n e'. Failed n e' \<in> set (calls ?rest) \<and> real n \<le> the_retries options \<longrightarrow>
            (\<exists>c. OnRetryCalled e' c \<in> set (calls ?rest) \<and> attempt c = n)"
  proof (intro allI impI)
    fix n e'
    assume h: "Failed n e' \<in> set (calls ?rest) \<and> real n \<le> the_retries options"
    then have f': "Failed n e' \<in> set (calls ?rest)" by simp
    from retry_loop_Failed_attempt [OF f'] have sn: "Suc att \<le> n" .
    from continue(4) [rule_format, of n e'] h c obtain c' where
      m: "OnRetryCalled e' c' \<in> set (calls ?it) \<or> OnRetryCalled e' c' \<in> set (calls ?rest)"
      and a: "attempt c' = n" by auto
    have "OnRetryCalled e' c' \<notin> set (calls ?it)"
    proof
      assume "OnRetryCalled e' c' \<in> set (calls ?it)"
      from iteration_OnRetryCalled [OF this] a sn show False by simp
    qed
    with m have "OnRetryCalled e' c' \<in> set (calls ?rest)" by simp
    with a show "\<exists>c. OnRetryCalled e' c \<in> set (calls ?rest) \<and> attempt c = n" by blast
  qed
  have "real (onRetryCalls (calls ?rest))
      = min (real (failedAttempts (calls ?rest))) (the_retries options - real att)"
    using continue(3) [OF h'] n by simp
  then show ?case using c f o n by simp
qed

lemma on_error_observed:
  assumes "\<not> instanceof_AbortError error"
    and "real att < the_retries options + 1"
    and "calculateDelay rt (int att) (the_minTimeout options) (the_maxTimeout options)
           (the_factor options) (the_jitter options) w1 = (nd, w1')"
  shows "OnRetryCalled error (the_context rt options st att w1)
           \<in> set (calls (on_error rt options st att error w1)) \<longleftrightarrow>
         onRetry options \<noteq> None \<and>
         (\<exists>tr1 w2. call_retryIf (retryIf options) error (the_context rt options st att w1) w1'
                     = (Fulfilled (), tr1, w2))"
proof -
  let ?ctx = "the_context rt options st att w1"
  obtain p1 tr1 w2 where r1: "call_retryIf (retryIf options) error ?ctx w1' = (p1, tr1, w2)"
    by (cases "call_retryIf (retryIf options) error ?ctx w1'") auto
  obtain p2 tr2 w3 where r2: "call_onRetry (onRetry options) error ?ctx w2 = (p2, tr2, w3)"
    by (cases "call_onRetry (onRetry options) error ?ctx w2") auto
  have t1: "tr1 = (if retryIf options = None then [] else [RetryIfCalled error ?ctx])"
    using call_retryIf_calls [of "retryIf options" error ?ctx w1'] r1 by simp
  have t2: "tr2 = (if onRetry options = None then [] else [OnRetryCalled error ?ctx])"
    using call_onRetry_calls [of "onRetry options" error ?ctx w2] r2 by simp
  show ?thesis
    unfolding on_error_unfold [OF assms, of st]
    using r1 r2 t1 t2 by (cases p1; cases p2) auto
qed

lemma retry_loop_Fulfilled_last:
  "outcome (retry_loop rt fn options st le att w) = Fulfilled v \<Longrightarrow>
   \<exists>tr' n. calls (retry_loop rt fn options st le att w) = tr' @ [Invoked n]"
proof (induction le att w rule: retry_loop_induct [of options _ rt fn st])
  case (exit le att w)
  then show ?case by (simp add: retry_loop_exit)
next
  case (stop le att w p)
  let ?it = "iteration rt fn options st att w"
  have r: "retry_loop rt fn options st le att w = (p, calls ?it, world ?it)"
    using retry_loop_done [OF stop(1,2)] .
  with stop(3) have p: "outcome ?it = Done (Fulfilled v)" using stop(2) by simp
  have "calls ?it = [Invoked att]"
  proof (cases rule: iteration_cases [of rt options st w fn att])
    case (fulfilled v' tr w1)
    from run_attempt_invoked [OF fulfilled(1,2)] fulfilled(3) show ?thesis by simp
  qed (use p in simp_all)
  with r show ?case by simp
next
  case (continue le att w e)
  let ?it = "iteration rt fn options st att w"
  let ?rest = "retry_loop rt fn options st (Some e) (Suc att) (world ?it)"
  note r = retry_loop_next [OF continue(1,2), of le]
  from continue(4) r have "outcome ?rest = Fulfilled v" by simp
  from continue(3) [OF this] obtain tr' n where "calls ?rest = tr' @ [Invoked n]" by blast
  then have "calls (retry_loop rt fn options st le att w) = (calls ?it @ tr') @ [Invoked n]"
    using r by simp
  then show ?case by blast
qed

text \<open>
  C8, as amended. For every valid configuration, \<^verbatim>\<open>onRetry\<close> is called at most
  \<open>min failedAttempts retries\<close> times, and exactly that many times when every failed
  attempt with retries remaining reaches it, that is, is followed by its call with the
  number of that attempt. It is called only for a failed attempt with retries remaining
  whose error is not an \<^verbatim>\<open>AbortError\<close>: never for the last attempt \<open>retries + 1\<close>.
  Such a failure reaches it exactly when it is configured and \<^verbatim>\<open>retryIf\<close>, if any,
  returns true. It is called before the total timeout is checked and before the sleep: a
  failure that it has seen can be the last one, not retried. When the call succeeds the
  last call made is the invocation of the operation.
\<close>

theorem C8_onRetry_count:
  assumes "validate options = None"
  shows "real (onRetryCalls (calls (retry rt fn options w)))
           \<le> min (real (failedAttempts (calls (retry rt fn options w)))) (the_retries options) \<and>
         ((\<forall>n e. Failed n e \<in> set (calls (retry rt fn options w)) \<and>
                  real n \<le> the_retries options \<longrightarrow>
             (\<exists>c. OnRetryCalled e c \<in> set (calls (retry rt fn options w)) \<and> attempt c = n))
          \<longrightarrow> real (onRetryCalls (calls (retry rt fn options w)))
                = min (real (failedAttempts (calls (retry rt fn options w))))
                      (the_retries options)) \<and>
         (\<forall>e c. OnRetryCalled e c \<in> set (calls (retry rt fn options w)) \<longrightarrow>
            real (attempt c) \<le> the_retries options \<and> 1 \<le> retriesLeft c \<and>
            \<not> instanceof_AbortError e \<and>
            Failed (attempt c) e \<in> set (calls (retry rt fn options w))) \<and>
         (\<forall>st att w' error tr w1 nd w1'.
            before_attempt rt options st w' = None \<and>
            run_attempt rt fn options att w' = (Rejected error, tr, w1) \<and>
            \<not> instanceof_AbortError error \<and> real att < the_retries options + 1 \<and>
            calculateDelay rt (int att) (the_minTimeout options) (the_maxTimeout options)
              (the_factor options) (the_jitter options) w1 = (nd, w1') \<longrightarrow>
            (OnRetryCalled error (the_context rt options st att w1)
               \<in> set (calls (iteration rt fn options st att w')) \<longleftrightarrow>
             onRetry options \<noteq> None \<and>
             (\<exists>tr1 w2. call_retryIf (retryIf options) error
                         (the_context rt options st att w1) w1' = (Fulfilled (), tr1, w2)))) \<and>
         (\<forall>v. outcome (retry rt fn options w) = Fulfilled v \<longrightarrow>
            (\<exists>tr' n. calls (retry rt fn options w) = tr' @ [Invoked n]))"
proof -
  have e: "OnRetryCalled error (the_context rt options st att w1)
               \<in> set (calls (iteration rt fn options st att w')) \<longleftrightarrow>
             onRetry options \<noteq> None \<and>
             (\<exists>tr1 w2. call_retryIf (retryIf options) error
                         (the_context rt options st att w1) w1' = (Fulfilled (), tr1, w2))"
    if h: "before_attempt rt options st w' = None \<and>
            run_attempt rt fn options att w' = (Rejected error, tr, w1) \<and>
            \<not> instanceof_AbortError error \<and> real att < the_retries options + 1 \<and>
            calculateDelay rt (int att) (the_minTimeout options) (the_maxTimeout options)
              (the_factor options) (the_jitter options) w1 = (nd, w1')"
    for st att w' error tr w1 nd w1'
  proof -
    from h have b: "before_attempt rt options st w' = None"
      and r: "run_attempt rt fn options att w' = (Rejected error, tr, w1)"
      and na: "\<not> instanceof_AbortError error" and l: "real att < the_retries options + 1"
      and cd: "calculateDelay rt (int att) (the_minTimeout options) (the_maxTimeout options)
              (the_factor options) (the_jitter options) w1 = (nd, w1')" by simp_all
    have "OnRetryCalled error (the_context rt options st att w1)
            \<in> set (calls (iteration rt fn options st att w')) \<longleftrightarrow>
          OnRetryCalled error (the_context rt options st att w1)
            \<in> set (calls (on_error rt options st att error w1))"
    proof
      assume "OnRetryCalled error (the_context rt options st att w1)
                \<in> set (calls (iteration rt fn options st att w'))"
      from iteration_call [OF this] r
      show "OnRetryCalled error (the_context rt options st att w1)
              \<in> set (calls (on_error rt options st att error w1))" by auto
    next
      assume m: "OnRetryCalled error (the_context rt options st att w1)
                \<in> set (calls (on_error rt options st att error w1))"
      show "OnRetryCalled error (the_context rt options st att w1)
                \<in> set (calls (iteration rt fn options st att w'))"
        using b r m by (cases rule: iteration_cases [of rt options st w' fn att]) auto
    qed
    with on_error_observed [OF na l cd, of st] show ?thesis by simp
  qed
  show ?thesis
  proof (cases "signal_aborted (signal options) w")
    case True
    then have "retry rt fn options w = (Rejected new_AbortError, [], w)"
      using assms by (simp add: retry_def)
    then show ?thesis using validate_None(1) [OF assms] e by simp
  next
    case False
    let ?st = "Date_now rt w"
    let ?L = "retry_loop rt fn options ?st None 1 (tick rt w)"
    have r: "retry rt fn options w = ?L" using assms False by (rule retry_valid)
    note int = validate_None(2) [OF assms]
    have m: "max 0 (the_retries options + 1 - real 1) = the_retries options"
      using validate_None(1) [OF assms] by simp
    have a: "real (onRetryCalls (calls ?L))
             \<le> min (real (failedAttempts (calls ?L))) (the_retries options)"
      using retry_loop_onRetry_le [OF int, of rt fn ?st None 1 "tick rt w"] m by simp
    have b: "real (onRetryCalls (calls ?L))
                  = min (real (failedAttempts (calls ?L))) (the_retries options)"
      if "\<forall>n e. Failed n e \<in> set (calls ?L) \<and> real n \<le> the_retries options \<longrightarrow>
             (\<exists>c. OnRetryCalled e c \<in> set (calls ?L) \<and> attempt c = n)"
      using retry_loop_onRetry_eq [OF int that] m by simp
    have c: "real (attempt c) \<le> the_retries options \<and> 1 \<le> retriesLeft c \<and>
             \<not> instanceof_AbortError e \<and> Failed (attempt c) e \<in> set (calls ?L)"
      if "OnRetryCalled e c \<in> set (calls ?L)" for e c
    proof -
      from retry_loop_call [OF that] obtain att' w' where
        i: "OnRetryCalled e c \<in> set (calls (iteration rt fn options ?st att' w'))" by blast
      from iteration_call [OF i] obtain error w1 where
        o: "OnRetryCalled e c \<in> set (calls (on_error rt options ?st att' error w1))"
        by auto
      from on_error_calls [OF o] have c: "c = the_context rt options ?st att' w1" by auto
      note R = retry_loop_OnRetryCalled [OF that]
      from R have g: "real (attempt c) \<le> the_retries options + 1"
        and nl: "the_retries options + 1 - real (attempt c) \<noteq> 0" by simp_all
      have le: "real (attempt c) \<le> the_retries options"
        using not_last_attempt [OF int g nl] .
      have "retriesLeft c = the_retries options + 1 - real (attempt c)" unfolding c by simp
      with le R show ?thesis by simp
    qed
    have d: "\<exists>tr' n. calls ?L = tr' @ [Invoked n]" if "outcome ?L = Fulfilled v" for v
      using retry_loop_Fulfilled_last [OF that] .
    from a b c d e show ?thesis unfolding r by blast
  qed
qed

text \<open>
  Two failures, then a success, with a predicate that accepts: two calls of the observer,
  one for each failed attempt, and the last call an invocation.
\<close>

theorem C8_onRetry_count_witness:
  "validate accepting_options = None \<and>
   retry rt0 flaky accepting_options 0
     = (Fulfilled 3,
        [Invoked 1, Failed 1 (Thrown ''boom''),
         RetryIfCalled (Thrown ''boom'')
           \<lparr>attempt = 1, retriesLeft = 3, elapsed = 5, nextDelay = Finite 10\<rparr>,
         OnRetryCalled (Thrown ''boom'')
           \<lparr>attempt = 1, retriesLeft = 3, elapsed = 5, nextDelay = Finite 10\<rparr>,
         Slept (Finite 10),
         Invoked 2, Failed 2 (Thrown ''boom''),
         RetryIfCalled (Thrown ''boom'')
           \<lparr>attempt = 2, retriesLeft = 2, elapsed = 20, nextDelay = Finite 20\<rparr>,
         OnRetryCalled (Thrown ''boom'')
           \<lparr>attempt = 2, retriesLeft = 2, elapsed = 20, nextDelay = Finite 20\<rparr>,
         Slept (Finite 20),
         Invoked 3], 45) \<and>
   real (onRetryCalls (calls (retry rt0 flaky accepting_options 0)))
     = min (real (failedAttempts (calls (retry rt0 flaky accepting_options 0))))
           (the_retries accepting_options) \<and>
   onRetryCalls (calls (retry rt0 flaky accepting_options 0)) = 2 \<and>
   real (attempt \<lparr>attempt = 2, retriesLeft = 2, elapsed = 20, nextDelay = Finite 20\<rparr>)
     \<le> the_retries accepting_options \<and>
   Failed 2 (Thrown ''boom'') \<in> set (calls (retry rt0 flaky accepting_options 0)) \<and>
   (OnRetryCalled (Thrown ''boom'') (the_context rt0 accepting_options 0 1 5)
      \<in> set (calls (iteration rt0 flaky accepting_options 0 1 0))) \<and>
   (\<exists>tr' n. calls (retry rt0 flaky accepting_options 0) = tr' @ [Invoked n])"
proof -
  let ?c1 = "\<lparr>attempt = 1, retriesLeft = 3, elapsed = 5, nextDelay = Finite 10\<rparr>"
  let ?c2 = "\<lparr>attempt = 2, retriesLeft = 2, elapsed = 20, nextDelay = Finite 20\<rparr>"
  note defs = retry_defs example_defs flaky_def accepting_options_def observed_options_def
    observe_def accept_def rt0_delays
  have v: "validate accepting_options = None" by (simp add: defs)
  have run: "retry rt0 flaky accepting_options 0
     = (Fulfilled 3,
        [Invoked 1, Failed 1 (Thrown ''boom''),
         RetryIfCalled (Thrown ''boom'') ?c1, OnRetryCalled (Thrown ''boom'') ?c1,
         Slept (Finite 10),
         Invoked 2, Failed 2 (Thrown ''boom''),
         RetryIfCalled (Thrown ''boom'') ?c2, OnRetryCalled (Thrown ''boom'') ?c2,
         Slept (Finite 20),
         Invoked 3], 45)"
    by (simp add: defs retry_loop.simps)
  have h: "\<forall>n e. Failed n e \<in> set (calls (retry rt0 flaky accepting_options 0)) \<and>
                  real n \<le> the_retries accepting_options \<longrightarrow>
             (\<exists>c. OnRetryCalled e c \<in> set (calls (retry rt0 flaky accepting_options 0)) \<and>
                  attempt c = n)"
  proof (intro allI impI)
    fix n e
    assume "Failed n e \<in> set (calls (retry rt0 flaky accepting_options 0)) \<and>
            real n \<le> the_retries accepting_options"
    then have "(n = 1 \<or> n = 2) \<and> e = Thrown ''boom''" unfolding run by auto
    then show "\<exists>c. OnRetryCalled e c \<in> set (calls (retry rt0 flaky accepting_options 0)) \<and>
                  attempt c = n"
    proof (elim conjE disjE)
      assume "n = 1" "e = Thrown ''boom''"
      then show ?thesis unfolding run by (intro exI [of _ ?c1]) simp
    next
      assume "n = 2" "e = Thrown ''boom''"
      then show ?thesis unfolding run by (intro exI [of _ ?c2]) simp
    qed
  qed
  note T = C8_onRetry_count [OF v, of rt0 flaky 0]
  have "OnRetryCalled (Thrown ''boom'') ?c2
        \<in> set (calls (retry rt0 flaky accepting_options 0))"
    unfolding run by simp
  with T [THEN conjunct2, THEN conjunct2, THEN conjunct1]
  have c: "real (attempt ?c2) \<le> the_retries accepting_options \<and>
           Failed (attempt ?c2) (Thrown ''boom'')
             \<in> set (calls (retry rt0 flaky accepting_options 0))"
    by blast
  have p: "before_attempt rt0 accepting_options 0 0 = None \<and>
           run_attempt rt0 flaky accepting_options 1 0
             = (Rejected (Thrown ''boom''), [Invoked 1], 5) \<and>
           \<not> instanceof_AbortError (Thrown ''boom'' :: string thrown) \<and>
           real 1 < the_retries accepting_options + 1 \<and>
           calculateDelay rt0 (int 1) (the_minTimeout accepting_options)
             (the_maxTimeout accepting_options) (the_factor accepting_options)
             (the_jitter accepting_options) 5 = (Finite 10, 5)"
    by (simp add: defs)
  have "call_retryIf (retryIf accepting_options) (Thrown ''boom'')
          (the_context rt0 accepting_options 0 1 5) 5
        = (Fulfilled (), [RetryIfCalled (Thrown ''boom'')
                            (the_context rt0 accepting_options 0 1 5)], 5)"
    by (simp add: call_retryIf_def accepting_options_def accept_def)
  then have q: "onRetry accepting_options \<noteq> None \<and>
           (\<exists>tr1 w2. call_retryIf (retryIf accepting_options) (Thrown ''boom'')
                       (the_context rt0 accepting_options 0 1 5) 5 = (Fulfilled (), tr1, w2))"
    by (simp add: accepting_options_def observed_options_def)
  from T [THEN conjunct2, THEN conjunct2, THEN conjunct2, THEN conjunct1, rule_format, OF p] q
  have o: "OnRetryCalled (Thrown ''boom'') (the_context rt0 accepting_options 0 1 5)
      \<in> set (calls (iteration rt0 flaky accepting_options 0 1 0))"
    by blast
  have "outcome (retry rt0 flaky accepting_options 0) = Fulfilled 3"
    unfolding run by simp
  with T [THEN conjunct2, THEN conjunct2, THEN conjunct2, THEN conjunct2]
  have d: "\<exists>tr' n. calls (retry rt0 flaky accepting_options 0) = tr' @ [Invoked n]"
    by blast
  from mp [OF T [THEN conjunct2, THEN conjunct1] h] v run c d o show ?thesis by simp
qed

text \<open>
  C8 as stated fails in two ways. With three retries allowed and a predicate that
  refuses, one attempt fails and the observer is not called, where \<open>min 1 3 = 1\<close>.
  With a total timeout of 100 ms, an operation that fails after 50 ms and a delay of
  60 ms, the observer is called for the failure of the first attempt, and the call then
  ends with the \<^verbatim>\<open>TimeoutError\<close>: that failure was the final one and is not retried.
\<close>

theorem C8_counterexample:
  "validate picky_options = None \<and>
   failedAttempts (calls (retry rt0 (failing 5) picky_options 0)) = 1 \<and>
   the_retries picky_options = 3 \<and>
   onRetry picky_options = Some observe \<and>
   onRetryCalls (calls (retry rt0 (failing 5) picky_options 0)) = 0 \<and>
   real (onRetryCalls (calls (retry rt0 (failing 5) picky_options 0)))
     \<noteq> min (real (failedAttempts (calls (retry rt0 (failing 5) picky_options 0))))
           (the_retries picky_options) \<and>
   validate observed_budget_options = None \<and>
   retry rt0 (failing 50) observed_budget_options 0
     = (Rejected (TimeoutError (TotalTimeoutWouldBeExceeded 100)),
        [Invoked 1, Failed 1 (Thrown ''boom''),
         OnRetryCalled (Thrown ''boom'')
           \<lparr>attempt = 1, retriesLeft = 3, elapsed = 50, nextDelay = Finite 60\<rparr>], 50)"
  by (simp add: retry_defs example_defs observe_def picky_options_def refuse_def
      observed_budget_options_def budget_options_def retry_loop.simps rt0_delays)

subsection \<open>The total timeout\<close>

lemma is_TotalTimeout_new_AbortError [simp]: "\<not> is_TotalTimeout new_AbortError"
  by (simp add: new_AbortError_def)

lemma run_attempt_error:
  assumes "run_attempt rt fn options att w = (Rejected error, tr, w1)"
  shows "error = new_AbortError \<or> (\<exists>t. error = TimeoutError (AttemptTimedOut t)) \<or>
         (\<exists>w'. fn att w = Some (Inl error, w'))"
proof -
  have s: "\<exists>w'. fn att w = Some (Inl error, w')"
    if "fn att w = Some (r, ws)" "settled r = (Rejected error :: ('a, 'b) promise)" for r ws
    using that by (cases r) auto
  have k: "error = new_AbortError \<or> (\<exists>t. error = TimeoutError (AttemptTimedOut t))"
    if "woken t k = (Rejected error :: ('a, 'b) promise)" for t k
    using that by (cases k) auto
  show ?thesis
  proof (cases "attemptTimeout options")
    case None
    with assms have "outcome (await_fn (fn att) w) = Rejected error"
      by (auto simp: run_attempt_def split: prod.splits if_splits)
    then show ?thesis using s by (auto simp: await_fn_def split: option.splits prod.splits)
  next
    case (Some t)
    with assms have wt: "outcome (withTimeout rt (fn att) t (signal options) w) = Rejected error"
      by (auto simp: run_attempt_def split: prod.splits if_splits)
    then show ?thesis using s k [of t]
      by (auto simp: withTimeout_def split: option.splits prod.splits if_splits)
  qed
qed

lemma on_error_Rejected:
  assumes "on_error rt options st att error w = (Rejected e, tr2, w2)"
  shows "e = error \<or>
         (\<exists>p c w w'. retryIf options = Some p \<and> p error c w = Some (Inl e, w')) \<or>
         (\<exists>q c w w'. onRetry options = Some q \<and> q error c w = Some (Inl e, w'))"
proof -
  have r: "e' = error \<or> (\<exists>p. retryIf options = Some p \<and> p error c w = Some (Inl e', w'))"
    if "call_retryIf (retryIf options) error c w = (Rejected e', tr', w')" for c w e' tr' w'
    using that
    by (auto simp: call_retryIf_def split: option.splits prod.splits sum.splits if_splits)
  have q: "\<exists>q. onRetry options = Some q \<and> q error c w = Some (Inl e', w')"
    if "call_onRetry (onRetry options) error c w = (Rejected e', tr', w')" for c w e' tr' w'
    using that
    by (auto simp: call_onRetry_def split: option.splits prod.splits sum.splits if_splits)
  show ?thesis
  proof (cases "instanceof_AbortError error \<or> the_retries options + 1 - real att = 0")
    case True
    from on_error_terminal [OF True, of rt st w] assms show ?thesis by simp
  next
    case False
    obtain nd w1 where cd: "calculateDelay rt (int att) (the_minTimeout options)
        (the_maxTimeout options) (the_factor options) (the_jitter options) w = (nd, w1)"
      by (cases "calculateDelay rt (int att) (the_minTimeout options)
        (the_maxTimeout options) (the_factor options) (the_jitter options) w") auto
    let ?ctx = "\<lparr>attempt = att, retriesLeft = the_retries options + 1 - real att,
                   elapsed = Date_now rt w1 - st, nextDelay = nd\<rparr>"
    obtain p1 tr1 w2' where r1: "call_retryIf (retryIf options) error ?ctx w1 = (p1, tr1, w2')"
      by (cases "call_retryIf (retryIf options) error ?ctx w1") auto
    obtain p2 tr2' w3 where r2: "call_onRetry (onRetry options) error ?ctx w2' = (p2, tr2', w3)"
      by (cases "call_onRetry (onRetry options) error ?ctx w2'") auto
    from assms False cd r1 r2 have "(p1 = Rejected e) \<or> (p2 = Rejected e)"
      by (auto simp: on_error_def Let_def split: promise.splits)
    then show ?thesis
    proof
      assume "p1 = Rejected e"
      with r1 r [of ?ctx w1 e tr1 w2'] show ?thesis by blast
    next
      assume "p2 = Rejected e"
      with r2 q [of ?ctx w2' e tr2' w3] show ?thesis by blast
    qed
  qed
qed

lemma before_next_timeout:
  "totalTimeout options = Some t \<Longrightarrow> less_than (Finite (t - (Date_now rt w - st))) nd \<Longrightarrow>
   before_next rt options st nd w
     = (Rejected (TimeoutError (TotalTimeoutWouldBeExceeded t)), [], w)"
  by (simp add: before_next_def Let_def)

lemma before_next_Rejected:
  assumes "before_next rt options st nd w = (Rejected e, tr3, w3)"
  shows "(\<exists>t. totalTimeout options = Some t \<and>
              less_than (Finite (t - (Date_now rt w - st))) nd) \<or>
         e = new_AbortError"
  using assms
  by (auto simp: before_next_def sleep_def Let_def
      split: option.splits if_splits prod.splits wakeup.splits)

text \<open>
  C4. Let the caller's code (the operation, \<^verbatim>\<open>retryIf\<close>, \<^verbatim>\<open>onRetry\<close>) never throw one
  of the two total-timeout errors itself. Then an iteration ends the call with such an
  error exactly when the elapsed time has reached \<^verbatim>\<open>totalTimeout\<close> at its head, before
  the attempt, or when, after a failure for which a retry is scheduled (\<^verbatim>\<open>on_error\<close>
  gives the delay), the time remaining is less than the delay. In the first case the call
  ends with no call made in that iteration; in the second with no sleep and no further
  attempt. And no such error is ever passed to \<^verbatim>\<open>retryIf\<close>.
\<close>

theorem C4_total_timeout:
  assumes fn_throws: "\<forall>att w e w'. fn att w = Some (Inl e, w') \<longrightarrow> \<not> is_TotalTimeout e"
    and retryIf_throws: "\<forall>p e c w e' w'. retryIf options = Some p \<and>
                        p e c w = Some (Inl e', w') \<longrightarrow> \<not> is_TotalTimeout e'"
    and onRetry_throws: "\<forall>q e c w e' w'. onRetry options = Some q \<and>
                        q e c w = Some (Inl e', w') \<longrightarrow> \<not> is_TotalTimeout e'"
  shows "((\<exists>e. outcome (iteration rt fn options st att w) = Done (Rejected e) \<and> is_TotalTimeout e)
          \<longleftrightarrow>
          (\<exists>t. totalTimeout options = Some t \<and> t \<le> Date_now rt w - st) \<or>
          (\<not> signal_aborted (signal options) w \<and>
           (\<exists>error tr w1 nd tr2 w2 t.
              run_attempt rt fn options att w = (Rejected error, tr, w1) \<and>
              on_error rt options st att error w1 = (Fulfilled nd, tr2, w2) \<and>
              totalTimeout options = Some t \<and>
              less_than (Finite (t - (Date_now rt w2 - st))) nd))) \<and>
         (\<forall>t. real att \<le> the_retries options + 1 \<and>
              totalTimeout options = Some t \<and> t \<le> Date_now rt w - st \<longrightarrow>
              retry_loop rt fn options st le att w
                = (Rejected (TimeoutError (TotalTimeoutExceeded t)), [], w)) \<and>
         (\<forall>error tr w1 nd tr2 w2 t.
              real att \<le> the_retries options + 1 \<and>
              before_attempt rt options st w = None \<and>
              run_attempt rt fn options att w = (Rejected error, tr, w1) \<and>
              on_error rt options st att error w1 = (Fulfilled nd, tr2, w2) \<and>
              totalTimeout options = Some t \<and>
              less_than (Finite (t - (Date_now rt w2 - st))) nd \<longrightarrow>
              retry_loop rt fn options st le att w
                = (Rejected (TimeoutError (TotalTimeoutWouldBeExceeded t)),
                   tr @ Failed att error # tr2, w2)) \<and>
         (\<forall>e c. RetryIfCalled e c \<in> set (calls (retry rt fn options w)) \<longrightarrow>
              \<not> is_TotalTimeout e)"
proof -
  have fn_ok: "\<not> is_TotalTimeout e" if "fn att w = Some (Inl e, w')"
    for att w e w'
    using fn_throws that by blast
  have retryIf_ok: "\<not> is_TotalTimeout e'"
    if "retryIf options = Some p" "p e c w = Some (Inl e', w')" for p e c w e' w'
    using retryIf_throws that by blast
  have onRetry_ok: "\<not> is_TotalTimeout e'"
    if "onRetry options = Some q" "q e c w = Some (Inl e', w')" for q e c w e' w'
    using onRetry_throws that by blast
  let ?A = "\<exists>t. totalTimeout options = Some t \<and> t \<le> Date_now rt w - st"
  let ?B = "\<exists>error tr w1 nd tr2 w2 t.
              run_attempt rt fn options att w = (Rejected error, tr, w1) \<and>
              on_error rt options st att error w1 = (Fulfilled nd, tr2, w2) \<and>
              totalTimeout options = Some t \<and>
              less_than (Finite (t - (Date_now rt w2 - st))) nd"
  have attempt_error: "\<not> is_TotalTimeout error"
    if "run_attempt rt fn options att' w' = (Rejected error, tr, w1)" for att' w' error tr w1
    using run_attempt_error [OF that] fn_ok by auto
  have forward: "?A \<or> (\<not> signal_aborted (signal options) w \<and> ?B)"
    if h: "outcome (iteration rt fn options st att w) = Done (Rejected e)" "is_TotalTimeout e"
    for e
  proof (cases rule: iteration_cases [of rt options st w fn att])
    case (stopped e')
    with h have "before_attempt rt options st w = Some e" by simp
    with h(2) show ?thesis
      by (auto simp: before_attempt_def Let_def split: option.splits if_splits)
  next
    case (thrown error tr w1 e' tr2 w2)
    with h have e: "on_error rt options st att error w1 = (Rejected e, tr2, w2)" by simp
    from on_error_Rejected [OF e] attempt_error [OF thrown(2)] retryIf_ok onRetry_ok h(2)
    show ?thesis by blast
  next
    case (cut error tr w1 nd tr2 w2 e' tr3 w3)
    with h have b: "before_next rt options st nd w2 = (Rejected e, tr3, w3)" by simp
    from before_next_Rejected [OF b] h(2)
    have "\<exists>t. totalTimeout options = Some t \<and>
              less_than (Finite (t - (Date_now rt w2 - st))) nd" by auto
    moreover have "\<not> signal_aborted (signal options) w"
      using cut(1) by (simp add: before_attempt_None)
    ultimately show ?thesis using cut(2,3) by blast
  qed (use h in simp_all)
  have backward_A: "\<exists>e. outcome (iteration rt fn options st att w) = Done (Rejected e)
                      \<and> is_TotalTimeout e" if ?A
  proof -
    from that obtain t where t: "totalTimeout options = Some t" "t \<le> Date_now rt w - st"
      by blast
    from iteration_stopped [OF before_attempt_timeout [OF t], of fn att] show ?thesis by simp
  qed
  have backward_B: "\<exists>e. outcome (iteration rt fn options st att w) = Done (Rejected e)
                      \<and> is_TotalTimeout e"
    if na: "\<not> signal_aborted (signal options) w" and b: ?B
  proof (cases ?A)
    case True
    then show ?thesis by (rule backward_A)
  next
    case False
    with na have ba: "before_attempt rt options st w = None"
      by (simp add: before_attempt_None)
    from b obtain error tr w1 nd tr2 w2 t where
      r: "run_attempt rt fn options att w = (Rejected error, tr, w1)"
      and o: "on_error rt options st att error w1 = (Fulfilled nd, tr2, w2)"
      and t: "totalTimeout options = Some t"
        "less_than (Finite (t - (Date_now rt w2 - st))) nd" by blast
    from ba r o before_next_timeout [OF t] show ?thesis by (simp add: iteration_def)
  qed
  have one: "(\<exists>e. outcome (iteration rt fn options st att w) = Done (Rejected e)
                \<and> is_TotalTimeout e) \<longleftrightarrow> ?A \<or> (\<not> signal_aborted (signal options) w \<and> ?B)"
    using forward backward_A backward_B by blast
  have two: "retry_loop rt fn options st le att w
                = (Rejected (TimeoutError (TotalTimeoutExceeded t)), [], w)"
    if "real att \<le> the_retries options + 1 \<and>
        totalTimeout options = Some t \<and> t \<le> Date_now rt w - st" for t
    using retry_loop_stopped [OF _ before_attempt_timeout, of att options t rt w st fn le] that
    by simp
  have three: "retry_loop rt fn options st le att w
                = (Rejected (TimeoutError (TotalTimeoutWouldBeExceeded t)),
                   tr @ Failed att error # tr2, w2)"
    if h: "real att \<le> the_retries options + 1 \<and>
        before_attempt rt options st w = None \<and>
        run_attempt rt fn options att w = (Rejected error, tr, w1) \<and>
        on_error rt options st att error w1 = (Fulfilled nd, tr2, w2) \<and>
        totalTimeout options = Some t \<and>
              less_than (Finite (t - (Date_now rt w2 - st))) nd"
    for error tr w1 nd tr2 w2 t
  proof -
    from h have t: "totalTimeout options = Some t"
        "less_than (Finite (t - (Date_now rt w2 - st))) nd" by simp_all
    from h before_next_timeout [OF t] have "iteration rt fn options st att w
        = (Done (Rejected (TimeoutError (TotalTimeoutWouldBeExceeded t))),
           tr @ Failed att error # tr2, w2)"
      by (simp add: iteration_def)
    then show ?thesis
      using retry_loop_done [of att options rt fn st w
          "Rejected (TimeoutError (TotalTimeoutWouldBeExceeded t))" le] h by simp
  qed
  have four: "\<not> is_TotalTimeout e" if m: "RetryIfCalled e c \<in> set (calls (retry rt fn options w))"
    for e c
  proof -
    from retry_call [OF m]
    have r: "retry rt fn options w = retry_loop rt fn options (Date_now rt w) None 1 (tick rt w)" by simp
    with m have "RetryIfCalled e c
        \<in> set (calls (retry_loop rt fn options (Date_now rt w) None 1 (tick rt w)))" by simp
    from retry_loop_call [OF this] obtain att' w' where
      "RetryIfCalled e c \<in> set (calls (iteration rt fn options (Date_now rt w) att' w'))"
      by blast
    from iteration_call [OF this] obtain error tr w1 where
      ra: "run_attempt rt fn options att' w' = (Rejected error, tr, w1)"
      and oe: "RetryIfCalled e c \<in> set (calls (on_error rt options (Date_now rt w) att' error w1))"
      by auto
    from on_error_calls [OF oe] have "e = error" by auto
    with attempt_error [OF ra] show ?thesis by simp
  qed
  from one two three four show ?thesis by blast
qed

text \<open>
  A budget of 100 ms, an operation that fails after 50 ms, a delay of 60 ms: the first
  iteration ends before its sleep; a second iteration entered at time 100 ends at its head.
\<close>

theorem C4_total_timeout_witness:
  "retry_loop rt0 (failing 50) budget_options 0 None 2 100
     = (Rejected (TimeoutError (TotalTimeoutExceeded 100)), [], 100) \<and>
   retry_loop rt0 (failing 50) budget_options 0 None 1 0
     = (Rejected (TimeoutError (TotalTimeoutWouldBeExceeded 100)),
        [Invoked 1, Failed 1 (Thrown ''boom'')], 50) \<and>
   (\<exists>e. outcome (iteration rt0 (failing 50) budget_options 0 1 0) = Done (Rejected e) \<and>
        is_TotalTimeout e) \<and>
   retry rt0 (failing 50) budget_options 0
     = retry_loop rt0 (failing 50) budget_options 0 None 1 0 \<and>
   calls (retry rt0 (failing 50) (budget_options\<lparr>retryIf := Some accept\<rparr>) 0)
     = [Invoked 1, Failed 1 (Thrown ''boom''),
        RetryIfCalled (Thrown ''boom'')
          \<lparr>attempt = 1, retriesLeft = 3, elapsed = 50, nextDelay = Finite 60\<rparr>] \<and>
   \<not> is_TotalTimeout (Thrown ''boom'' :: string thrown)"
proof -
  have f: "\<forall>att w e w'. failing 50 att w = Some (Inl e, w') \<longrightarrow> \<not> is_TotalTimeout e"
    by (auto simp: failing_def)
  have r: "\<forall>p e c w e' w'. retryIf budget_options = Some p \<and>
             p e c w = Some (Inl e', w') \<longrightarrow> \<not> is_TotalTimeout e'"
    by (simp add: budget_options_def no_options_def)
  have q: "\<forall>q e c w e' w'. onRetry budget_options = Some q \<and>
             q e c w = Some (Inl e', w') \<longrightarrow> \<not> is_TotalTimeout e'"
    by (simp add: budget_options_def no_options_def)
  note T2 = C4_total_timeout [where fn = "failing 50" and options = budget_options and rt = rt0
      and st = 0 and att = 2 and w = 100 and le = None, OF f r q]
  note T1 = C4_total_timeout [where fn = "failing 50" and options = budget_options and rt = rt0
      and st = 0 and att = 1 and w = 0 and le = None, OF f r q]
  have a: "real 2 \<le> the_retries budget_options + 1 \<and>
           totalTimeout budget_options = Some 100 \<and> 100 \<le> Date_now rt0 100 - 0"
    by (simp add: retry_defs example_defs budget_options_def)
  have two: "retry_loop rt0 (failing 50) budget_options 0 None 2 100
     = (Rejected (TimeoutError (TotalTimeoutExceeded 100)), [], 100)"
    using T2 [THEN conjunct2, THEN conjunct1] a by blast
  have b: "real 1 \<le> the_retries budget_options + 1 \<and>
           before_attempt rt0 budget_options 0 0 = None \<and>
           run_attempt rt0 (failing 50) budget_options 1 0
             = (Rejected (Thrown ''boom''), [Invoked 1], 50) \<and>
           on_error rt0 budget_options 0 1 (Thrown ''boom'') 50
             = (Fulfilled (Finite 60), [], 50) \<and>
           totalTimeout budget_options = Some 100 \<and>
           less_than (Finite (100 - (Date_now rt0 50 - 0))) (Finite 60)"
    by (simp add: retry_defs example_defs budget_options_def rt0_delays)
  have three: "retry_loop rt0 (failing 50) budget_options 0 None 1 0
     = (Rejected (TimeoutError (TotalTimeoutWouldBeExceeded 100)),
        [Invoked 1] @ Failed 1 (Thrown ''boom'') # [], 50)"
    using T1 [THEN conjunct2, THEN conjunct2, THEN conjunct1] b by blast
  have "\<not> signal_aborted (signal budget_options) (0::nat)"
    by (simp add: signal_aborted_def budget_options_def no_options_def)
  with b have "(\<exists>t. totalTimeout budget_options = Some t \<and> t \<le> Date_now rt0 0 - 0) \<or>
          (\<not> signal_aborted (signal budget_options) 0 \<and>
           (\<exists>error tr w1 nd tr2 w2 t.
              run_attempt rt0 (failing 50) budget_options 1 0 = (Rejected error, tr, w1) \<and>
              on_error rt0 budget_options 0 1 error w1 = (Fulfilled nd, tr2, w2) \<and>
              totalTimeout budget_options = Some t \<and>
              less_than (Finite (t - (Date_now rt0 w2 - 0))) nd))"
    by blast
  with T1 [THEN conjunct1]
  have one: "\<exists>e. outcome (iteration rt0 (failing 50) budget_options 0 1 0) = Done (Rejected e) \<and>
        is_TotalTimeout e" by blast
  have "retry rt0 (failing 50) budget_options 0
     = retry_loop rt0 (failing 50) budget_options 0 None 1 0"
    by (simp add: retry_def validate_def the_retries_def the_minTimeout_def the_maxTimeout_def
        the_factor_def Number_isInteger_def signal_aborted_def example_defs budget_options_def)
  moreover have run: "calls (retry rt0 (failing 50) (budget_options\<lparr>retryIf := Some accept\<rparr>) 0)
     = [Invoked 1, Failed 1 (Thrown ''boom''),
        RetryIfCalled (Thrown ''boom'')
          \<lparr>attempt = 1, retriesLeft = 3, elapsed = 50, nextDelay = Finite 60\<rparr>]"
    by (simp add: retry_defs example_defs budget_options_def accept_def retry_loop.simps
        rt0_delays)
  moreover have "\<not> is_TotalTimeout (Thrown ''boom'' :: string thrown)"
  proof -
    have r': "\<forall>p e c w e' w'. retryIf (budget_options\<lparr>retryIf := Some accept\<rparr>) = Some p \<and>
             p e c w = Some (Inl e', w') \<longrightarrow> \<not> is_TotalTimeout e'"
      by (simp add: accept_def)
    have q': "\<forall>q e c w e' w'. onRetry (budget_options\<lparr>retryIf := Some accept\<rparr>) = Some q \<and>
             q e c w = Some (Inl e', w') \<longrightarrow> \<not> is_TotalTimeout e'"
      by (simp add: budget_options_def no_options_def)
    have "RetryIfCalled (Thrown ''boom'')
            \<lparr>attempt = 1, retriesLeft = 3, elapsed = 50, nextDelay = Finite 60\<rparr>
          \<in> set (calls (retry rt0 (failing 50) (budget_options\<lparr>retryIf := Some accept\<rparr>) 0))"
      unfolding run by simp
    with C4_total_timeout [where fn = "failing 50"
        and options = "budget_options\<lparr>retryIf := Some accept\<rparr>" and rt = rt0 and w = 0,
        OF f r' q', THEN conjunct2, THEN conjunct2, THEN conjunct2]
    show ?thesis by blast
  qed
  ultimately show ?thesis using one two three by simp
qed

end
